theory Spec2Isabelle
  imports Complex_Main "HOL-Library.Sublist"
begin


section \<open>Strings\<close>

text \<open>
  Python \<open>str\<close> values are modelled as \<open>string\<close> (a list of bytes, UTF-8). Every needle
  the program searches for (\<open>NOT_FOUND\<close>, \<open>.pdf\<close>, \<open>flash\<close>, \<open>pro\<close>) is ASCII, and
  UTF-8 is self-synchronising, so a search on bytes finds what the search on code points
  finds. Characters outside ASCII are written as their bytes.
\<close>

definition nl :: string where
  "nl = [CHR 0x0A]"

definition dquote :: string where
  "dquote = [CHR 0x22]"

definition quote :: string where
  "quote = [CHR 0x27]"

text \<open>\<open>needle in hay\<close> on Python strings.\<close>

fun str_contains :: "string \<Rightarrow> string \<Rightarrow> bool" where
  "str_contains needle [] = (needle = [])"
| "str_contains needle (c # cs) = (prefix needle (c # cs) \<or> str_contains needle cs)"

text \<open>\<open>s.endswith(suf)\<close>.\<close>

definition endswith :: "string \<Rightarrow> string \<Rightarrow> bool" where
  "endswith s suf = (length suf \<le> length s \<and> drop (length s - length suf) s = suf)"

text \<open>\<open>sep.join(parts)\<close>.\<close>

fun join :: "string \<Rightarrow> string list \<Rightarrow> string" where
  "join sep [] = []"
| "join sep [x] = x"
| "join sep (x # y # ys) = x @ sep @ join sep (y # ys)"

section \<open>Data\<close>

text \<open>
  An exception of class \<open>Exception\<close>, with \<open>str(e)\<close> as its detail. The libraries the
  program calls raise only such exceptions.
\<close>

datatype py_exception = PyException (detail: string)

text \<open>A LangChain \<open>Document\<close>: one page of a PDF, or one chunk of it.\<close>

record document =
  page_content :: string
  source :: string
  page :: nat

text \<open>
  The vector store object handed to \<open>generate_answer\<close>. The program uses one method of
  it, \<open>similarity_search(query, k)\<close>, which returns documents or raises. The store is a
  local, in-memory object that nothing updates, so the method is a function of its
  arguments.
\<close>

record vector_store =
  similarity_search :: "string \<Rightarrow> nat \<Rightarrow> py_exception + document list"

text \<open>An entry of \<open>genai.list_models()\<close>.\<close>

record genai_model =
  name :: string
  supported_generation_methods :: "string list"

text \<open>One turn of the conversation: the dict \<open>{"role": ..., "content": ...}\<close>.\<close>

record message =
  role :: string
  content :: string

text \<open>
  What the program does to the outside, in the order it does it: calls to the file
  system, to the libraries and to the hosted services, and the Streamlit elements it
  draws. The static decoration (page configuration, style sheet, sidebar texts, titles)
  is left out. \<open>ChatOpen role avatar\<close> is a chat bubble opened and still empty
  (\<open>with st.chat_message(...)\<close> before anything is written into it);
  \<open>ChatMessage role avatar content\<close> is a bubble showing its content: drawn in one go
  by the render loop and for the user's input, and for the reply the moment
  \<open>st.write(response_text)\<close> fills the bubble opened before. \<open>TavilyInvoke\<close> stands for
  building the search tool and invoking it.
\<close>

datatype event =
    PathExists string
  | ListDir string
  | PdfLoad string
  | SplitDocuments
  | FromDocuments
  | ListModels
  | SimilaritySearch string nat
  | GenerateContent string string
  | TavilyInvoke nat string
  | StError string
  | StStop
  | StRerun
  | StatusInfo string
  | StatusEmpty
  | ChatOpen string string
  | ChatMessage string string string
  | ChatInput string

text \<open>
  What the search tool hands back when it does not raise: the results as \<open>str\<close> renders
  them, or, when the request to the search service failed, the \<open>repr\<close> of that failure,
  which the tool catches and returns in place of results.
\<close>

datatype search_reply = SearchResults string | SearchFailed string

definition reply_text :: "search_reply \<Rightarrow> string" where
  "reply_text r = (case r of SearchResults t \<Rightarrow> t | SearchFailed t \<Rightarrow> t)"

text \<open>
  The environment of one script run. The language model is asked up to three times in
  one run, possibly twice with the same model and prompt, and may answer differently each
  time: its answer depends on the moment of the call, the number of events before it.
  Every other service is called at most once per run with the same arguments.
\<close>

record world =
  google_api_key :: "string option"
  tavily_api_key :: "string option"
  path_exists :: "string \<Rightarrow> bool"
  listdir :: "string \<Rightarrow> py_exception + string list"
  pdf_load :: "string \<Rightarrow> py_exception + document list"
  split_documents :: "document list \<Rightarrow> py_exception + document list"
  from_documents :: "document list \<Rightarrow> py_exception + vector_store"
  list_models :: "(py_exception + genai_model) list"
  generate_content :: "nat \<Rightarrow> string \<Rightarrow> string \<Rightarrow> py_exception + string"
  tavily_raises :: "py_exception option"
  tavily_request :: "nat \<Rightarrow> string \<Rightarrow> search_reply"

text \<open>
  The state that outlives a script run: the two \<open>st.cache_resource\<close> entries of the
  process (\<open>None\<close>: the function has not run yet), the \<open>messages\<close> key of
  \<open>st.session_state\<close> (\<open>None\<close>: the key is absent), and the events so far.
\<close>

record app_state =
  vector_store_cache :: "vector_store option option"
  model_name_cache :: "string option"
  messages :: "message list option"
  out :: "event list"

definition emit :: "event \<Rightarrow> app_state \<Rightarrow> app_state" where
  "emit e s = s\<lparr>out := out s @ [e]\<rparr>"

definition now :: "app_state \<Rightarrow> nat" where
  "now s = length (out s)"

text \<open>The events of a computation that took the state from \<open>s\<close> to \<open>s'\<close>.\<close>

definition emitted :: "app_state \<Rightarrow> app_state \<Rightarrow> event list" where
  "emitted s s' = drop (length (out s)) (out s')"

section \<open>Building the index: \<open>get_vector_store\<close>\<close>

definition data_folder :: string where
  "data_folder = ''data''"

text \<open>\<open>os.path.join(data_folder, file)\<close> for a name that \<open>os.listdir\<close> returned.\<close>

definition path_join :: "string \<Rightarrow> string \<Rightarrow> string" where
  "path_join d f = d @ ''/'' @ f"

text \<open>
  The loop over the directory listing. A loader that raises ends the loop with the
  exception; the pages of every \<open>.pdf\<close> file are appended in the order of the listing.
\<close>

fun load_pdfs :: "world \<Rightarrow> string list \<Rightarrow> document list \<Rightarrow> app_state \<Rightarrow>
    (py_exception + document list) \<times> app_state" where
  "load_pdfs w [] documents s = (Inr documents, s)"
| "load_pdfs w (file # files) documents s =
     (if endswith file ''.pdf'' then
        (let pdf_path = path_join data_folder file;
             s1 = emit (PdfLoad pdf_path) s
         in case pdf_load w pdf_path of
              Inl e \<Rightarrow> (Inl e, s1)
            | Inr pages \<Rightarrow> load_pdfs w files (documents @ pages) s1)
      else load_pdfs w files documents s)"

definition no_pdf_message :: string where
  "no_pdf_message = ''No PDF files found in '' @ quote @ ''data'' @ quote @ '' folder!''"

definition no_folder_message :: string where
  "no_folder_message = ''Folder '' @ quote @ data_folder @ quote @
     '' not found! Please create a '' @ quote @ ''data'' @ quote @ '' folder.''"

text \<open>
  The body of the \<open>try\<close> block: \<open>Inl e\<close> when it raises, \<open>Inr None\<close> for its early
  \<open>return None\<close>, \<open>Inr (Some v)\<close> for the index.
\<close>

definition try_build :: "world \<Rightarrow> app_state \<Rightarrow> (py_exception + vector_store option) \<times> app_state" where
  "try_build w s =
     (let s1 = emit (ListDir data_folder) s in
      case listdir w data_folder of
        Inl e \<Rightarrow> (Inl e, s1)
      | Inr files \<Rightarrow>
          (case load_pdfs w files [] s1 of
             (Inl e, s2) \<Rightarrow> (Inl e, s2)
           | (Inr documents, s2) \<Rightarrow>
               if documents = [] then (Inr None, emit (StError no_pdf_message) s2)
               else
                 (let s3 = emit SplitDocuments s2 in
                  case split_documents w documents of
                    Inl e \<Rightarrow> (Inl e, s3)
                  | Inr splits \<Rightarrow>
                      (let s4 = emit FromDocuments s3 in
                       case from_documents w splits of
                         Inl e \<Rightarrow> (Inl e, s4)
                       | Inr vectorstore \<Rightarrow> (Inr (Some vectorstore), s4)))))"

text \<open>The function as written, without its decorator.\<close>

definition get_vector_store_body :: "world \<Rightarrow> app_state \<Rightarrow> vector_store option \<times> app_state" where
  "get_vector_store_body w s =
     (let s1 = emit (PathExists data_folder) s in
      if \<not> path_exists w data_folder then (None, emit (StError no_folder_message) s1)
      else
        (case try_build w s1 of
           (Inl e, s2) \<Rightarrow> (None, emit (StError (''Error loading PDFs: '' @ detail e)) s2)
         | (Inr r, s2) \<Rightarrow> (r, s2)))"

text \<open>
  \<open>@st.cache_resource\<close> on a function without arguments: the first call runs the body
  and stores what it returns (also \<open>None\<close>), every later call returns the stored value
  and does not run the body. Streamlit shows again, on a later call, the error box the
  body drew; the events record the box where the body draws it and leave the repetition
  out.
\<close>

definition get_vector_store :: "world \<Rightarrow> app_state \<Rightarrow> vector_store option \<times> app_state" where
  "get_vector_store w s =
     (case vector_store_cache s of
        Some r \<Rightarrow> (r, s)
      | None \<Rightarrow>
          (case get_vector_store_body w s of
             (r, s1) \<Rightarrow> (r, s1\<lparr>vector_store_cache := Some (r)\<rparr>)))"

section \<open>Choosing the model: \<open>get_working_model_name\<close>\<close>

text \<open>
  The loop over \<open>genai.list_models()\<close>, a generator that can raise at any element
  (\<open>Inl\<close>); the bare \<open>except\<close> then returns the older name.
\<close>

fun pick_model :: "(py_exception + genai_model) list \<Rightarrow> string" where
  "pick_model [] = ''models/gemini-1.5-flash''"
| "pick_model (Inl e # ms) = ''models/gemini-pro''"
| "pick_model (Inr m # ms) =
     (if ''generateContent'' \<in> set (supported_generation_methods m)
         \<and> (str_contains ''flash'' (name m) \<or> str_contains ''pro'' (name m))
      then name m else pick_model ms)"

definition get_working_model_name :: "world \<Rightarrow> app_state \<Rightarrow> string \<times> app_state" where
  "get_working_model_name w s =
     (case model_name_cache s of
        Some n \<Rightarrow> (n, s)
      | None \<Rightarrow>
          (let n = pick_model (list_models w)
           in (n, (emit ListModels s)\<lparr>model_name_cache := Some n\<rparr>)))"

section \<open>Answering a query: \<open>generate_answer\<close>\<close>

text \<open>The first f-string, with the retrieved context and the question filled in.\<close>

definition pdf_prompt_text :: "string \<Rightarrow> string \<Rightarrow> string" where
  "pdf_prompt_text context_text query =
     nl @ ''    You are a polite and helpful Customer Support Agent for a Sri Lankan Telecommunications Company.'' @
     nl @ ''    '' @
     nl @ ''    Context from Guides:'' @
     nl @ ''    '' @ context_text @
     nl @ ''    '' @
     nl @ ''    Customer Question: '' @ query @
     nl @ ''    '' @
     nl @ ''    Instructions:'' @
     nl @ ''    1. Be friendly and concise.'' @
     nl @ ''    2. If the user asks for a price/code, give exact details from the text.'' @
     nl @ ''    3. If the answer is NOT in the context, reply exactly '' @ dquote @ ''NOT_FOUND'' @ dquote @ ''.'' @
     nl @ ''    ''"

text \<open>The second f-string; \<open>web_results\<close> is the search result as \<open>str\<close> renders it.\<close>

definition web_prompt_text :: "string \<Rightarrow> string \<Rightarrow> string" where
  "web_prompt_text web_results query =
     nl @ ''            You are a Telecom Support Agent. The internal document didn'' @ quote @
          ''t have the answer, so use these web search results.'' @
     nl @ ''            '' @
     nl @ ''            Web Results: '' @ web_results @
     nl @ ''            Question: '' @ query @
     nl @ ''            '' @
     nl @ ''            Answer helpfully and summarize the best options.'' @
     nl @ ''            ''"

definition secondary_model :: string where
  "secondary_model = ''models/gemini-1.0-pro''"

definition sentinel :: string where
  "sentinel = ''NOT_FOUND''"

definition apology :: string where
  "apology = ''I couldn'' @ quote @ ''t find that information in our guides or online.''"

definition checking_online :: string where
  "checking_online = [CHR 0xF0, CHR 0x9F, CHR 0x94, CHR 0x8D] @ '' Checking online sources...''"

text \<open>
  The two nested \<open>try\<close> blocks around the model. Building the model object, the call
  and reading \<open>response.text\<close> are one step that answers or raises. \<open>Inr (model, answer)\<close>
  is the answer with the model that gave it (the value of the variable \<open>model\<close>
  afterwards); \<open>Inl msg\<close> is the early \<open>return\<close> of the system error, which formats
  the exception of the first attempt.
\<close>

definition ask_model :: "world \<Rightarrow> string \<Rightarrow> string \<Rightarrow> app_state \<Rightarrow>
    (string + string \<times> string) \<times> app_state" where
  "ask_model w model_name pdf_prompt s =
     (let s1 = emit (GenerateContent model_name pdf_prompt) s in
      case generate_content w (now s) model_name pdf_prompt of
        Inr answer \<Rightarrow> (Inr (model_name, answer), s1)
      | Inl e \<Rightarrow>
          (let s2 = emit (GenerateContent secondary_model pdf_prompt) s1 in
           case generate_content w (now s1) secondary_model pdf_prompt of
             Inr answer \<Rightarrow> (Inr (secondary_model, answer), s2)
           | Inl e2 \<Rightarrow> (Inl (''System Error: '' @ detail e), s2)))"

text \<open>
  \<open>TavilySearchResults(max_results=k).invoke(query)\<close>, a library call: it raises when
  building or invoking the tool raises (\<open>tavily_raises\<close>); a failure of the request itself
  does not raise but comes back as the returned text.
\<close>

definition tavily_invoke :: "world \<Rightarrow> nat \<Rightarrow> string \<Rightarrow> py_exception + string" where
  "tavily_invoke w k query =
     (case tavily_raises w of
        Some e \<Rightarrow> Inl e
      | None \<Rightarrow> Inr (reply_text (tavily_request w k query)))"

text \<open>The branch taken when the answer contains the sentinel.\<close>

definition web_fallback :: "world \<Rightarrow> string \<Rightarrow> string \<Rightarrow> app_state \<Rightarrow> string \<times> app_state" where
  "web_fallback w query model s =
     (let s1 = emit (StatusInfo checking_online) s;
          s2 = emit (TavilyInvoke 3 query) s1
      in case tavily_invoke w 3 query of
           Inl e \<Rightarrow> (apology, s2)
         | Inr web_results \<Rightarrow>
             (let web_prompt = web_prompt_text web_results query;
                  s3 = emit (GenerateContent model web_prompt) s2
              in case generate_content w (now s2) model web_prompt of
                   Inl e \<Rightarrow> (apology, s3)
                 | Inr final_answer \<Rightarrow> (final_answer, emit StatusEmpty s3)))"

text \<open>
  \<open>generate_answer(query, vector_store, chat_history)\<close>: \<open>Inl e\<close> when the exception
  \<open>e\<close> leaves the function, \<open>Inr text\<close> when it returns \<open>text\<close>.
\<close>

definition generate_answer :: "world \<Rightarrow> string \<Rightarrow> vector_store \<Rightarrow> message list \<Rightarrow> app_state \<Rightarrow>
    (py_exception + string) \<times> app_state" where
  "generate_answer w query vector_store chat_history s =
     (case get_working_model_name w s of
        (model_name, s1) \<Rightarrow>
          (let s2 = emit (SimilaritySearch query 3) s1 in
           case similarity_search vector_store query 3 of
             Inl e \<Rightarrow> (Inl e, s2)
           | Inr docs \<Rightarrow>
               (let context_text = join (nl @ nl) (map page_content docs);
                    pdf_prompt = pdf_prompt_text context_text query
                in case ask_model w model_name pdf_prompt s2 of
                     (Inl system_error, s3) \<Rightarrow> (Inr system_error, s3)
                   | (Inr (model, answer), s3) \<Rightarrow>
                       if str_contains sentinel answer
                       then (case web_fallback w query model s3 of (r, s4) \<Rightarrow> (Inr r, s4))
                       else (Inr answer, s3))))"

section \<open>The script: one run of the Streamlit application\<close>

definition keys_missing_message :: string where
  "keys_missing_message = [CHR 0xE2, CHR 0x9A, CHR 0xA0, CHR 0xEF, CHR 0xB8, CHR 0x8F] @
     '' Error: Keys not found. Please check your .env file.''"

definition greeting :: message where
  "greeting = \<lparr>role = ''ai'', content = ''Hello! '' @ [CHR 0xF0, CHR 0x9F, CHR 0x91, CHR 0x8B] @
     '' I can help you find the best data packages or fix router issues. What do you need today?''\<rparr>"

definition antenna :: string where
  "antenna = [CHR 0xF0, CHR 0x9F, CHR 0x93, CHR 0xA1]"

definition bust :: string where
  "bust = [CHR 0xF0, CHR 0x9F, CHR 0x91, CHR 0xA4]"

definition input_placeholder :: string where
  "input_placeholder = ''Type your question here...''"

text \<open>\<open>not key\<close> for the result of \<open>os.getenv\<close>: the variable is unset or empty.\<close>

definition falsy :: "string option \<Rightarrow> bool" where
  "falsy k = (case k of None \<Rightarrow> True | Some v \<Rightarrow> v = [])"

text \<open>What the user did to start this run of the script.\<close>

record widgets =
  clear_clicked :: bool
  chat_input :: "string option"

definition no_interaction :: widgets where
  "no_interaction = \<lparr>clear_clicked = False, chat_input = None\<rparr>"

text \<open>How a run of the script ends; \<open>Crashed e\<close> is an exception nothing caught.\<close>

datatype run_end = Completed | Stopped | Rerun | Crashed py_exception

text \<open>The render loop over the history.\<close>

definition render_message :: "message \<Rightarrow> event" where
  "render_message msg =
     ChatMessage (role msg) (if role msg = ''ai'' then antenna else bust) (content msg)"

definition render_history :: "message list \<Rightarrow> app_state \<Rightarrow> app_state" where
  "render_history msgs s = s\<lparr>out := out s @ map render_message msgs\<rparr>"

definition session_messages :: "app_state \<Rightarrow> message list" where
  "session_messages s = (case messages s of None \<Rightarrow> [] | Some h \<Rightarrow> h)"

definition append_message :: "message \<Rightarrow> app_state \<Rightarrow> app_state" where
  "append_message m s = s\<lparr>messages := Some (session_messages s @ [m])\<rparr>"

text \<open>The block under \<open>if vector_store:\<close>.\<close>

definition chat_interface :: "world \<Rightarrow> vector_store \<Rightarrow> string option \<Rightarrow> app_state \<Rightarrow>
    run_end \<times> app_state" where
  "chat_interface w vector_store user_input s =
     (let s1 = (if messages s = None then s\<lparr>messages := Some [greeting]\<rparr> else s);
          s2 = render_history (session_messages s1) s1;
          s3 = emit (ChatInput input_placeholder) s2
      in case user_input of
           None \<Rightarrow> (Completed, s3)
         | Some text \<Rightarrow>
             if text = [] then (Completed, s3)
             else
               (let s4 = emit (ChatMessage ''human'' bust text) s3;
                    s5 = append_message \<lparr>role = ''human'', content = text\<rparr> s4;
                    s6 = emit (ChatOpen ''ai'' antenna) s5
                in case generate_answer w text vector_store (session_messages s6) s6 of
                     (Inl e, s7) \<Rightarrow> (Crashed e, s7)
                   | (Inr response_text, s7) \<Rightarrow>
                       (Completed,
                        append_message \<lparr>role = ''ai'', content = response_text\<rparr>
                          (emit (ChatMessage ''ai'' antenna response_text) s7))))"

text \<open>
  The script from its first line to its last. \<open>st.stop()\<close> and \<open>st.rerun()\<close> end the
  pass where they stand.
\<close>

definition script_pass :: "world \<Rightarrow> widgets \<Rightarrow> app_state \<Rightarrow> run_end \<times> app_state" where
  "script_pass w wd s =
     (if falsy (google_api_key w) \<or> falsy (tavily_api_key w)
      then (Stopped, emit StStop (emit (StError keys_missing_message) s))
      else if clear_clicked wd
      then (Rerun, emit StRerun (s\<lparr>messages := Some []\<rparr>))
      else
        (case get_vector_store w s of
           (None, s1) \<Rightarrow> (Completed, s1)
         | (Some vector_store, s1) \<Rightarrow> chat_interface w vector_store (chat_input wd) s1))"

text \<open>
  One interaction: the pass it starts and, after \<open>st.rerun()\<close>, the pass that follows,
  in which no widget reports an interaction.
\<close>

definition script_run :: "world \<Rightarrow> widgets \<Rightarrow> app_state \<Rightarrow> run_end \<times> app_state" where
  "script_run w wd s =
     (case script_pass w wd s of
        (Rerun, s1) \<Rightarrow> script_pass w no_interaction s1
      | (r, s1) \<Rightarrow> (r, s1))"

text \<open>The state of a fresh process with a fresh session.\<close>

definition process_start :: app_state where
  "process_start = \<lparr>vector_store_cache = None, model_name_cache = None, messages = None, out = []\<rparr>"

section \<open>Reading the events\<close>

text \<open>The chat messages a list of events shows, in order.\<close>

definition shown_messages :: "event list \<Rightarrow> message list" where
  "shown_messages es =
     List.map_filter (\<lambda>e. case e of ChatMessage r a c \<Rightarrow> Some \<lparr>role = r, content = c\<rparr> | _ \<Rightarrow> None) es"

text \<open>Whether the chat input box is drawn.\<close>

definition chat_rendered :: "event list \<Rightarrow> bool" where
  "chat_rendered es = (ChatInput input_placeholder \<in> set es)"

text \<open>The error boxes drawn.\<close>

definition shown_errors :: "event list \<Rightarrow> string list" where
  "shown_errors es = List.map_filter (\<lambda>e. case e of StError m \<Rightarrow> Some m | _ \<Rightarrow> None) es"

text \<open>The calls to the language model: model and prompt.\<close>

definition model_calls :: "event list \<Rightarrow> (string \<times> string) list" where
  "model_calls es = List.map_filter (\<lambda>e. case e of GenerateContent m p \<Rightarrow> Some (m, p) | _ \<Rightarrow> None) es"

text \<open>The calls to the web search: result limit and query.\<close>

definition web_searches :: "event list \<Rightarrow> (nat \<times> string) list" where
  "web_searches es = List.map_filter (\<lambda>e. case e of TavilyInvoke k q \<Rightarrow> Some (k, q) | _ \<Rightarrow> None) es"

text \<open>The calls to the index: query and \<open>k\<close>.\<close>

definition retrievals :: "event list \<Rightarrow> (string \<times> nat) list" where
  "retrievals es = List.map_filter (\<lambda>e. case e of SimilaritySearch q k \<Rightarrow> Some (q, k) | _ \<Rightarrow> None) es"

text \<open>The work of building the index: reading the folder and the files, splitting, embedding.\<close>

definition index_work :: "event list \<Rightarrow> event list" where
  "index_work es = filter (\<lambda>e. case e of PathExists p \<Rightarrow> True | ListDir p \<Rightarrow> True | PdfLoad p \<Rightarrow> True
     | SplitDocuments \<Rightarrow> True | FromDocuments \<Rightarrow> True | _ \<Rightarrow> False) es"

definition index_builds :: "event list \<Rightarrow> nat" where
  "index_builds es = length (filter (\<lambda>e. e = FromDocuments) es)"

text \<open>The events of \<open>get_vector_store\<close>, and the events of \<open>generate_answer\<close>.\<close>

definition build_event :: "event \<Rightarrow> bool" where
  "build_event e = (case e of PathExists p \<Rightarrow> True | ListDir p \<Rightarrow> True | PdfLoad p \<Rightarrow> True
     | SplitDocuments \<Rightarrow> True | FromDocuments \<Rightarrow> True | StError m \<Rightarrow> True | _ \<Rightarrow> False)"

definition answer_event :: "event \<Rightarrow> bool" where
  "answer_event e = (case e of ListModels \<Rightarrow> True | SimilaritySearch q k \<Rightarrow> True
     | GenerateContent m p \<Rightarrow> True | TavilyInvoke k q \<Rightarrow> True | StatusInfo t \<Rightarrow> True
     | StatusEmpty \<Rightarrow> True | _ \<Rightarrow> False)"

section \<open>A sequence of interactions\<close>


section \<open>The embedding index\<close>

text \<open>
  Modelled from the spec: the vector index itself (the FAISS library behind
  \<open>similarity_search\<close>) is not in the source. The spec describes it as a mapping from
  chunk vectors to chunk texts, built from the chunks with a deterministic embedding
  function, with \<open>search(query_text, k)\<close> returning an ordered sequence of up to \<open>k\<close>
  chunks by ascending vector distance. The distance is the squared Euclidean one.
\<close>

record embedding_index =
  entries :: "(real list \<times> document) list"
  embed :: "string \<Rightarrow> real list"

definition distance :: "real list \<Rightarrow> real list \<Rightarrow> real" where
  "distance u v = sum_list (map (\<lambda>(a, b). (a - b) * (a - b)) (zip u v))"

definition search :: "embedding_index \<Rightarrow> string \<Rightarrow> nat \<Rightarrow> (document \<times> real) list" where
  "search idx q k =
     take k (sort_key snd (map (\<lambda>(v, d). (d, distance (embed idx q) v)) (entries idx)))"

definition index_store :: "embedding_index \<Rightarrow> vector_store" where
  "index_store idx = \<lparr>similarity_search = (\<lambda>q k. Inr (map fst (search idx q k)))\<rparr>"

section \<open>Example environments\<close>

definition guide_page :: document where
  "guide_page = \<lparr>page_content = ''The 10GB package costs 1000 LKR.'',
     source = ''data/guide.pdf'', page = 0\<rparr>"

definition guide_store :: vector_store where
  "guide_store = \<lparr>similarity_search = (\<lambda>q k. Inr (take k [guide_page]))\<rparr>"

definition broken_store :: vector_store where
  "broken_store = \<lparr>similarity_search = (\<lambda>q k. Inl (PyException ''embedding model unavailable''))\<rparr>"

definition flash :: genai_model where
  "flash = \<lparr>name = ''models/gemini-1.5-flash'', supported_generation_methods = [''generateContent'']\<rparr>"

text \<open>Everything works: one guide in the folder, a model that answers from it.\<close>

definition demo_world :: world where
  "demo_world =
     \<lparr>google_api_key = Some ''g-key'', tavily_api_key = Some ''t-key'',
      path_exists = (\<lambda>p. p = ''data''),
      listdir = (\<lambda>p. Inr [''guide.pdf'', ''readme.txt'']),
      pdf_load = (\<lambda>p. Inr [guide_page]),
      split_documents = (\<lambda>ds. Inr ds),
      from_documents = (\<lambda>ds. Inr guide_store),
      list_models = [Inr flash],
      generate_content = (\<lambda>t m p. Inr ''The 10GB package costs 1000 LKR.''),
      tavily_raises = None,
      tavily_request = (\<lambda>k q. SearchResults ''[]'')\<rparr>"

text \<open>The model answers every prompt with the sentinel.\<close>

definition sentinel_world :: world where
  "sentinel_world = demo_world\<lparr>generate_content := (\<lambda>t m p. Inr ''NOT_FOUND'')\<rparr>"

text \<open>
  The model does not find the answer in the guides (its first call is the third event
  of a fresh process) and answers from the web results afterwards.
\<close>

definition web_world :: world where
  "web_world = demo_world\<lparr>generate_content :=
     (\<lambda>t m p. if t = 2 then Inr ''Sorry: NOT_FOUND'' else Inr ''Dialog offers a 10GB plan.'')\<rparr>"

text \<open>Both models are down, each with its own error.\<close>

definition outage_world :: world where
  "outage_world = demo_world\<lparr>generate_content :=
     (\<lambda>t m p. Inl (PyException (if t = 2 then ''primary down'' else ''secondary down'')))\<rparr>"



text \<open>The folder holds a file named \<open>guide.pdf\<close> that the loader cannot read.\<close>

definition corrupt_world :: world where
  "corrupt_world = demo_world\<lparr>pdf_load := (\<lambda>p. Inl (PyException ''not a PDF''))\<rparr>"

text \<open>The folder holds no PDF.\<close>

definition empty_folder_world :: world where
  "empty_folder_world = demo_world\<lparr>listdir := (\<lambda>p. Inr [''readme.txt''])\<rparr>"

text \<open>A session in the middle of a conversation, the index built.\<close>

definition chatting :: app_state where
  "chatting =
     \<lparr>vector_store_cache = Some (Some guide_store),
      model_name_cache = Some ''models/gemini-1.5-flash'',
      messages = Some [greeting, \<lparr>role = ''human'', content = ''hi''\<rparr>,
                       \<lparr>role = ''ai'', content = ''Hello.''\<rparr>],
      out = []\<rparr>"

text \<open>A greeted session whose index raises on every search.\<close>

definition chatting_broken :: app_state where
  "chatting_broken =
     \<lparr>vector_store_cache = Some (Some broken_store),
      model_name_cache = Some ''models/gemini-1.5-flash'',
      messages = Some [greeting],
      out = []\<rparr>"

text \<open>An index of three chunks on a line, the query embedded at the origin.\<close>

definition line_index :: embedding_index where
  "line_index =
     \<lparr>entries = [([3], \<lparr>page_content = ''far'', source = ''data/guide.pdf'', page = 2\<rparr>),
                 ([1], \<lparr>page_content = ''near'', source = ''data/guide.pdf'', page = 0\<rparr>),
                 ([2], \<lparr>page_content = ''middle'', source = ''data/guide.pdf'', page = 1\<rparr>),
                 ([4], \<lparr>page_content = ''farthest'', source = ''data/guide.pdf'', page = 3\<rparr>)],
      embed = (\<lambda>q. [0])\<rparr>"


text \<open>
  The model misses the answer at its call at moment \<open>n\<close> and answers from the web results
  afterwards.
\<close>

definition sentinel_at :: "nat \<Rightarrow> world" where
  "sentinel_at n = demo_world\<lparr>generate_content :=
     (\<lambda>t m p. if t = n then Inr ''NOT_FOUND'' else Inr ''Dialog offers a 10GB plan.'')\<rparr>"

text \<open>The same process, seen from a session that has only been greeted and has drawn its input box.\<close>

definition greeted :: app_state where
  "greeted = chatting\<lparr>messages := Some [greeting], out := [ChatInput input_placeholder]\<rparr>"


section \<open>Strings: the searches mean what Python means\<close>

lemma str_contains_sublist: "str_contains n h \<longleftrightarrow> sublist n h"
  by (induction h) (auto simp: sublist_Cons_right)

lemma str_contains_middle: "str_contains x (a @ x @ b)"
  unfolding str_contains_sublist sublist_def by blast

lemma endswith_suffix: "endswith s suf \<longleftrightarrow> suffix suf s"
  unfolding endswith_def
  by (metis append_eq_conv_conj append_take_drop_id diff_add_inverse2 length_append suffix_def
      le_add2 suffixE suffixI)

lemma parts_in_join: "x \<in> set xs \<Longrightarrow> sublist x (join sep xs)"
proof (induction sep xs rule: join.induct)
  case (3 sep a b ys)
  show ?case
  proof (cases "x = a")
    case True
    then show ?thesis by (simp add: sublist_def) (metis append_Nil)
  next
    case False
    with 3 have "sublist x (join sep (b # ys))" by simp
    then show ?thesis by (simp add: sublist_append)
  qed
qed (simp_all)

lemma prompts_differ: "web_prompt_text a b \<noteq> pdf_prompt_text c d"
proof
  assume "web_prompt_text a b = pdf_prompt_text c d"
  then have "web_prompt_text a b ! 5 = pdf_prompt_text c d ! 5" by simp
  then show False by (simp add: web_prompt_text_def pdf_prompt_text_def nl_def)
qed

section \<open>Events\<close>

lemma emit_fields [simp]:
  "out (emit e s) = out s @ [e]"
  "messages (emit e s) = messages s"
  "vector_store_cache (emit e s) = vector_store_cache s"
  "model_name_cache (emit e s) = model_name_cache s"
  "now (emit e s) = Suc (now s)"
  by (simp_all add: emit_def now_def)

lemma emitted_append [simp]: "out s' = out s @ es \<Longrightarrow> emitted s s' = es"
  by (simp add: emitted_def)

lemma emitted_self [simp]: "emitted s s = []"
  by (simp add: emitted_def)

lemma readers_append [simp]:
  "shown_messages (xs @ ys) = shown_messages xs @ shown_messages ys"
  "shown_errors (xs @ ys) = shown_errors xs @ shown_errors ys"
  "model_calls (xs @ ys) = model_calls xs @ model_calls ys"
  "web_searches (xs @ ys) = web_searches xs @ web_searches ys"
  "retrievals (xs @ ys) = retrievals xs @ retrievals ys"
  "index_work (xs @ ys) = index_work xs @ index_work ys"
  "index_builds (xs @ ys) = index_builds xs + index_builds ys"
  by (simp_all add: shown_messages_def shown_errors_def model_calls_def web_searches_def
      retrievals_def index_work_def index_builds_def map_filter_def)

lemma readers_Nil [simp]:
  "shown_messages [] = []" "shown_errors [] = []" "model_calls [] = []" "web_searches [] = []"
  "retrievals [] = []" "index_work [] = []" "index_builds [] = 0"
  by (simp_all add: shown_messages_def shown_errors_def model_calls_def web_searches_def
      retrievals_def index_work_def index_builds_def map_filter_def)

lemma readers_Cons [simp]:
  "shown_messages (e # es) =
     (case e of ChatMessage r a c \<Rightarrow> [\<lparr>role = r, content = c\<rparr>] | _ \<Rightarrow> []) @ shown_messages es"
  "shown_errors (e # es) = (case e of StError m \<Rightarrow> [m] | _ \<Rightarrow> []) @ shown_errors es"
  "model_calls (e # es) = (case e of GenerateContent m p \<Rightarrow> [(m, p)] | _ \<Rightarrow> []) @ model_calls es"
  "web_searches (e # es) = (case e of TavilyInvoke k q \<Rightarrow> [(k, q)] | _ \<Rightarrow> []) @ web_searches es"
  "retrievals (e # es) = (case e of SimilaritySearch q k \<Rightarrow> [(q, k)] | _ \<Rightarrow> []) @ retrievals es"
  "index_builds (e # es) = (if e = FromDocuments then 1 else 0) + index_builds es"
  by (simp_all add: shown_messages_def shown_errors_def model_calls_def web_searches_def
      retrievals_def index_builds_def map_filter_def split: event.splits)

section \<open>What each function does to the state\<close>

lemma get_working_model_name_frame:
  assumes "get_working_model_name w s = (n, s1)"
  shows "messages s1 = messages s" and "vector_store_cache s1 = vector_store_cache s"
    and "out s1 = out s \<or> out s1 = out s @ [ListModels]"
  using assms by (auto simp: get_working_model_name_def Let_def split: option.splits)

lemma ask_model_frame:
  assumes "ask_model w m p s = (r, s1)"
  shows "messages s1 = messages s" and "vector_store_cache s1 = vector_store_cache s"
    and "out s1 = out s @ [GenerateContent m p] \<or>
         out s1 = out s @ [GenerateContent m p, GenerateContent secondary_model p]"
  using assms by (auto simp: ask_model_def Let_def split: sum.splits)

lemma web_fallback_frame:
  assumes "web_fallback w q m s = (r, s1)"
  shows "messages s1 = messages s" and "vector_store_cache s1 = vector_store_cache s"
  using assms by (auto simp: web_fallback_def Let_def split: sum.splits)

text \<open>The events of the fallback, and its result, by the outcome of its two calls.\<close>

lemma web_fallback_cases:
  "web_fallback w q m s =
     (case tavily_invoke w 3 q of
        Inl e \<Rightarrow> (apology, s\<lparr>out := out s @ [StatusInfo checking_online, TavilyInvoke 3 q]\<rparr>)
      | Inr wr \<Rightarrow>
          (case generate_content w (now s + 2) m (web_prompt_text wr q) of
             Inl e \<Rightarrow> (apology, s\<lparr>out := out s @ [StatusInfo checking_online, TavilyInvoke 3 q,
                          GenerateContent m (web_prompt_text wr q)]\<rparr>)
           | Inr final_answer \<Rightarrow> (final_answer, s\<lparr>out := out s @ [StatusInfo checking_online,
                          TavilyInvoke 3 q, GenerateContent m (web_prompt_text wr q), StatusEmpty]\<rparr>)))"
  by (simp add: web_fallback_def Let_def emit_def now_def split: sum.splits)

text \<open>After a successful retrieval and an answer, the function is its last \<open>if\<close>.\<close>

lemma generate_answer_after_answer:
  assumes "similarity_search vs query 3 = Inr docs"
    and "get_working_model_name w s = (model_name, s1)"
    and "ask_model w model_name (pdf_prompt_text (join (nl @ nl) (map page_content docs)) query)
           (emit (SimilaritySearch query 3) s1) = (Inr (model, answer), s3)"
  shows "generate_answer w query vs h s =
     (if str_contains sentinel answer
      then (Inr (fst (web_fallback w query model s3)), snd (web_fallback w query model s3))
      else (Inr answer, s3))"
  using assms by (simp add: generate_answer_def Let_def split: prod.splits)


lemma index_work_Cons [simp]:
  "index_work (e # es) = (if build_event e \<and> (\<forall>m. e \<noteq> StError m) then [e] else []) @ index_work es"
  by (cases e) (simp_all add: index_work_def build_event_def)

lemma build_events_silent:
  assumes "list_all build_event es"
  shows "shown_messages es = []" and "model_calls es = []" and "web_searches es = []"
    and "retrievals es = []" and "\<not> chat_rendered es"
  using assms
  by (induction es; simp add: build_event_def chat_rendered_def split: event.splits)+

lemma answer_events_silent:
  assumes "list_all answer_event es"
  shows "shown_messages es = []" and "shown_errors es = []" and "index_work es = []"
    and "index_builds es = 0" and "\<not> chat_rendered es"
  using assms
  by (induction es; simp add: answer_event_def build_event_def chat_rendered_def split: event.splits)+

lemma shown_rendered [simp]: "shown_messages (map render_message h) = h"
  by (induction h) (simp_all add: render_message_def)

lemma rendered_silent [simp]:
  "shown_errors (map render_message h) = []" "index_work (map render_message h) = []"
  "index_builds (map render_message h) = 0"
  "ChatInput p \<notin> set (map render_message h)"
  by (induction h; simp add: render_message_def build_event_def)+

text \<open>The loop reads the files and nothing else; its result does not depend on the state.\<close>

lemma load_pdfs_frame:
  assumes "load_pdfs w files docs s = (r, s')"
  shows "messages s' = messages s \<and> vector_store_cache s' = vector_store_cache s \<and>
         model_name_cache s' = model_name_cache s \<and>
         (\<exists>es. out s' = out s @ es \<and> list_all build_event es \<and> index_builds es = 0 \<and>
            shown_errors es = [])"
  using assms
proof (induction files arbitrary: docs s)
  case Nil
  then show ?case by auto
next
  case (Cons f files)
  show ?case
  proof (cases "endswith f ''.pdf''")
    case False
    with Cons show ?thesis by simp
  next
    case True
    show ?thesis
    proof (cases "pdf_load w (path_join data_folder f)")
      case (Inl e)
      with True Cons.prems show ?thesis
        by (auto simp: Let_def build_event_def)
    next
      case (Inr pages)
      with True Cons.prems
      have rest: "load_pdfs w files (docs @ pages) (emit (PdfLoad (path_join data_folder f)) s) = (r, s')"
        by (simp add: Let_def)
      from Cons.IH[OF rest] show ?thesis
        by (auto simp: build_event_def)
    qed
  qed
qed

lemma load_pdfs_result: "fst (load_pdfs w files docs s) = fst (load_pdfs w files docs s0)"
  by (induction files arbitrary: docs s s0) (auto simp: Let_def split: sum.splits)

lemma load_pdfs_no_pdf:
  "\<not> (\<exists>f \<in> set files. endswith f ''.pdf'') \<Longrightarrow> load_pdfs w files docs s = (Inr docs, s)"
  by (induction files) auto

lemma try_build_frame:
  assumes "try_build w s = (r, s')"
  shows "messages s' = messages s \<and> vector_store_cache s' = vector_store_cache s \<and>
         model_name_cache s' = model_name_cache s \<and>
         (\<exists>es. out s' = out s @ es \<and> list_all build_event es \<and> index_builds es \<le> 1)"
proof (cases "listdir w data_folder")
  case (Inl e)
  with assms show ?thesis
    by (auto simp: try_build_def Let_def build_event_def)
next
  case (Inr files)
  obtain r1 s1 where l: "load_pdfs w files [] (emit (ListDir data_folder) s) = (r1, s1)"
    by (cases "load_pdfs w files [] (emit (ListDir data_folder) s)")
  from load_pdfs_frame[OF l] obtain es where
    f: "messages s1 = messages s" "vector_store_cache s1 = vector_store_cache s"
       "model_name_cache s1 = model_name_cache s"
       "out s1 = out s @ ListDir data_folder # es" "list_all build_event es" "index_builds es = 0"
    by auto
  from assms Inr l f show ?thesis
    by (auto simp: try_build_def Let_def build_event_def split: sum.splits if_splits)
qed

lemma get_vector_store_body_frame:
  assumes "get_vector_store_body w s = (r, s')"
  shows "messages s' = messages s \<and> vector_store_cache s' = vector_store_cache s \<and>
         model_name_cache s' = model_name_cache s \<and>
         (\<exists>es. out s' = out s @ es \<and> list_all build_event es \<and> index_builds es \<le> 1)"
proof (cases "path_exists w data_folder")
  case False
  with assms show ?thesis
    by (auto simp: get_vector_store_body_def Let_def build_event_def)
next
  case True
  obtain r1 s1 where t: "try_build w (emit (PathExists data_folder) s) = (r1, s1)"
    by (cases "try_build w (emit (PathExists data_folder) s)")
  from try_build_frame[OF t] obtain es where
    f: "messages s1 = messages s" "vector_store_cache s1 = vector_store_cache s"
       "model_name_cache s1 = model_name_cache s"
       "out s1 = out s @ PathExists data_folder # es" "list_all build_event es" "index_builds es \<le> 1"
    by auto
  from assms True t f show ?thesis
    by (auto simp: get_vector_store_body_def Let_def build_event_def split: sum.splits)
qed

text \<open>The decorated function: a hit changes nothing, a miss runs the body and fills the entry.\<close>

lemma get_vector_store_frame:
  assumes "get_vector_store w s = (r, s')"
  shows "messages s' = messages s \<and> model_name_cache s' = model_name_cache s \<and>
         vector_store_cache s' = Some r \<and>
         (\<forall>c. vector_store_cache s = Some c \<longrightarrow> r = c \<and> s' = s) \<and>
         (\<exists>es. out s' = out s @ es \<and> list_all build_event es \<and> index_builds es \<le> 1)"
proof (cases "vector_store_cache s")
  case (Some c)
  with assms show ?thesis by (auto simp: get_vector_store_def)
next
  case None
  obtain r1 s1 where b: "get_vector_store_body w s = (r1, s1)"
    by (cases "get_vector_store_body w s")
  from get_vector_store_body_frame[OF b] assms None b show ?thesis
    by (auto simp: get_vector_store_def)
qed

text \<open>\<open>generate_answer\<close> leaves the session and the caches of the index alone.\<close>

lemma generate_answer_frame:
  assumes "generate_answer w q vs h s = (r, s')"
  shows "messages s' = messages s \<and> vector_store_cache s' = vector_store_cache s \<and>
         (\<exists>es. out s' = out s @ es \<and> list_all answer_event es)"
  using assms
  by (auto simp: generate_answer_def get_working_model_name_def ask_model_def web_fallback_cases
      Let_def emit_def answer_event_def split: option.splits sum.splits if_splits prod.splits)

text \<open>It raises only in the retrieval.\<close>

lemma generate_answer_outcome:
  "(case similarity_search vs q 3 of
      Inl e \<Rightarrow> fst (generate_answer w q vs h s) = Inl e
    | Inr docs \<Rightarrow> (\<exists>t. fst (generate_answer w q vs h s) = Inr t))"
  by (auto simp: generate_answer_def Let_def split: sum.splits prod.splits)


section \<open>The chat block and the script\<close>

lemma chat_interface_idle:
  assumes "user_input = None \<or> user_input = Some []"
  shows "chat_interface w vs user_input s =
     (Completed, s\<lparr>messages := Some (case messages s of None \<Rightarrow> [greeting] | Some h \<Rightarrow> h),
        out := out s @ map render_message (case messages s of None \<Rightarrow> [greeting] | Some h \<Rightarrow> h)
                 @ [ChatInput input_placeholder]\<rparr>)"
  using assms
  by (auto simp: chat_interface_def Let_def render_history_def session_messages_def emit_def
      split: option.splits)

text \<open>The state in which a submission reaches \<open>generate_answer\<close>.\<close>

lemma chat_interface_submit:
  assumes "text \<noteq> []"
    and "h = (case messages s of None \<Rightarrow> [greeting] | Some h \<Rightarrow> h)"
    and "s5 = s\<lparr>messages := Some (h @ [\<lparr>role = ''human'', content = text\<rparr>]),
                 out := out s @ map render_message h @
                   [ChatInput input_placeholder, ChatMessage ''human'' bust text,
                    ChatOpen ''ai'' antenna]\<rparr>"
  shows "chat_interface w vs (Some text) s =
     (case generate_answer w text vs (h @ [\<lparr>role = ''human'', content = text\<rparr>]) s5 of
        (Inl e, s6) \<Rightarrow> (Crashed e, s6)
      | (Inr response_text, s6) \<Rightarrow>
          (Completed, s6\<lparr>out := out s6 @ [ChatMessage ''ai'' antenna response_text],
             messages := Some (session_messages s6 @ [\<lparr>role = ''ai'', content = response_text\<rparr>])\<rparr>))"
  using assms
  by (auto simp: chat_interface_def Let_def render_history_def session_messages_def emit_def
      append_message_def split: option.splits sum.splits prod.splits)

lemma chat_interface_append_only:
  "prefix (session_messages s) (session_messages (snd (chat_interface w vs user_input s)))"
proof (cases "user_input = None \<or> user_input = Some []")
  case True
  then show ?thesis
    by (simp add: chat_interface_idle session_messages_def split: option.splits)
next
  case False
  then obtain inp where t: "user_input = Some inp" "inp \<noteq> []" by auto
  define h where "h = (case messages s of None \<Rightarrow> [greeting] | Some h \<Rightarrow> h)"
  define s5 where "s5 = s\<lparr>messages := Some (h @ [\<lparr>role = ''human'', content = inp\<rparr>]),
                 out := out s @ map render_message h @
                   [ChatInput input_placeholder, ChatMessage ''human'' bust inp,
                    ChatOpen ''ai'' antenna]\<rparr>"
  obtain r s6 where g: "generate_answer w inp vs (h @ [\<lparr>role = ''human'', content = inp\<rparr>]) s5 = (r, s6)"
    by (cases "generate_answer w inp vs (h @ [\<lparr>role = ''human'', content = inp\<rparr>]) s5")
  from generate_answer_frame[OF g] have m: "messages s6 = Some (h @ [\<lparr>role = ''human'', content = inp\<rparr>])"
    by (simp add: s5_def)
  have p: "prefix (session_messages s) h"
    by (simp add: h_def session_messages_def split: option.splits)
  show ?thesis
    using m p
    by (cases r) (simp_all add: t chat_interface_submit[OF t(2) h_def s5_def] g session_messages_def
        prefix_prefix)
qed

lemma script_pass_append_only:
  "\<not> clear_clicked wd \<Longrightarrow> prefix (session_messages s) (session_messages (snd (script_pass w wd s)))"
proof -
  assume nc: "\<not> clear_clicked wd"
  obtain r sB where g: "get_vector_store w s = (r, sB)"
    by (cases "get_vector_store w s")
  from get_vector_store_frame[OF g] have m: "session_messages sB = session_messages s"
    by (simp add: session_messages_def)
  show ?thesis
    using nc g m chat_interface_append_only[of sB w _ "chat_input wd"]
    by (cases r) (auto simp: script_pass_def session_messages_def)
qed

lemma chat_interface_no_rerun: "fst (chat_interface w vs user_input s) \<noteq> Rerun"
  by (simp add: chat_interface_def Let_def split: option.splits prod.splits sum.splits)

lemma script_run_no_clear:
  assumes "\<not> clear_clicked wd"
  shows "script_run w wd s = script_pass w wd s"
proof -
  have "fst (script_pass w wd s) \<noteq> Rerun"
    using assms chat_interface_no_rerun
    by (simp add: script_pass_def split: prod.splits option.splits)
  then show ?thesis
    by (cases "script_pass w wd s") (simp add: script_run_def split: run_end.splits)
qed

section \<open>The index and the prompt\<close>

lemma search_at_most_k: "length (search idx q k) \<le> k"
  by (simp add: search_def)

lemma search_ascending: "sorted (map snd (search idx q k))"
proof -
  have "sorted (take k (map snd (sort_key snd
          (map (\<lambda>(v, d). (d, distance (embed idx q) v)) (entries idx)))))"
    by (rule sorted_wrt_take) simp
  then show ?thesis by (simp add: search_def take_map)
qed

lemma sublist_app_right: "sublist x ys \<Longrightarrow> sublist x (zs @ ys)"
  using sublist_order.order.trans[of x ys "zs @ ys"] by simp

lemma context_in_prompt: "sublist c (pdf_prompt_text c q)"
  unfolding pdf_prompt_text_def
  by (rule sublist_app_right, rule sublist_app_right, rule sublist_app_right,
      rule sublist_app_right, rule sublist_app_right, rule sublist_app_right,
      rule sublist_app_right, rule sublist_app_right, rule sublist_append_rightI)

lemma chunk_in_prompt:
  assumes "d \<in> set docs"
  shows "str_contains (page_content d) (pdf_prompt_text (join sep (map page_content docs)) q)"
proof -
  from assms have "sublist (page_content d) (join sep (map page_content docs))"
    by (intro parts_in_join) simp
  with context_in_prompt[of "join sep (map page_content docs)" q] show ?thesis
    unfolding str_contains_sublist by (rule sublist_order.order.trans[rotated])
qed

text \<open>The first two steps of \<open>generate_answer\<close> when the retrieval returns.\<close>

lemma generate_answer_events:
  assumes "similarity_search vs q 3 = Inr docs"
    and "get_working_model_name w s = (mn, s1)"
  shows "\<exists>tail. out (snd (generate_answer w q vs h s)) =
           out s1 @ SimilaritySearch q 3 #
             GenerateContent mn (pdf_prompt_text (join (nl @ nl) (map page_content docs)) q) # tail
           \<and> retrievals tail = []"
  using assms
  by (simp add: generate_answer_def ask_model_def web_fallback_cases Let_def emit_def
      split: sum.splits)

lemma generate_answer_first_calls:
  assumes "similarity_search vs q 3 = Inr docs"
  shows "retrievals (emitted s (snd (generate_answer w q vs h s))) = [(q, 3)] \<and>
         (\<exists>rest. model_calls (emitted s (snd (generate_answer w q vs h s))) =
           (fst (get_working_model_name w s),
            pdf_prompt_text (join (nl @ nl) (map page_content docs)) q) # rest)"
proof -
  obtain mn s1 where g: "get_working_model_name w s = (mn, s1)"
    by (cases "get_working_model_name w s")
  from generate_answer_events[OF assms g, of h] obtain tail where
    t: "out (snd (generate_answer w q vs h s)) =
           out s1 @ SimilaritySearch q 3 #
             GenerateContent mn (pdf_prompt_text (join (nl @ nl) (map page_content docs)) q) # tail"
       "retrievals tail = []"
    by blast
  from get_working_model_name_frame(3)[OF g]
  show ?thesis
  proof
    assume "out s1 = out s"
    with t show ?thesis by (simp add: emitted_def g)
  next
    assume "out s1 = out s @ [ListModels]"
    with t show ?thesis by (simp add: emitted_def g)
  qed
qed


section \<open>The cache entry of the index over the runs\<close>









section \<open>Two calls side by side\<close>

lemma ask_model_cases:
  "ask_model w m p s =
     (case generate_content w (now s) m p of
        Inr answer \<Rightarrow> (Inr (m, answer), s\<lparr>out := out s @ [GenerateContent m p]\<rparr>)
      | Inl e \<Rightarrow>
          (case generate_content w (Suc (now s)) secondary_model p of
             Inr answer \<Rightarrow> (Inr (secondary_model, answer),
                s\<lparr>out := out s @ [GenerateContent m p, GenerateContent secondary_model p]\<rparr>)
           | Inl e2 \<Rightarrow> (Inl (''System Error: '' @ detail e),
                s\<lparr>out := out s @ [GenerateContent m p, GenerateContent secondary_model p]\<rparr>)))"
  by (simp add: ask_model_def Let_def emit_def now_def split: sum.splits)

text \<open>\<open>generate_answer\<close> written with projections instead of patterns.\<close>

lemma generate_answer_unfold:
  "generate_answer w q vs h s =
     (let g = get_working_model_name w s;
          s2 = emit (SimilaritySearch q 3) (snd g)
      in case similarity_search vs q 3 of
           Inl e \<Rightarrow> (Inl e, s2)
         | Inr docs \<Rightarrow>
             (let a = ask_model w (fst g) (pdf_prompt_text (join (nl @ nl) (map page_content docs)) q) s2
              in case fst a of
                   Inl system_error \<Rightarrow> (Inr system_error, snd a)
                 | Inr ma \<Rightarrow>
                     if str_contains sentinel (snd ma)
                     then (Inr (fst (web_fallback w q (fst ma) (snd a))),
                           snd (web_fallback w q (fst ma) (snd a)))
                     else (Inr (snd ma), snd a)))"
  by (simp add: generate_answer_def Let_def split: prod.splits sum.splits)

text \<open>
  Two calls in two states and two environments that answer alike, call by call, take the
  same steps and return the same value.
\<close>

lemma alike_shift:
  assumes "\<forall>i. generate_content w1 (now a + i) = generate_content w2 (now b + i)"
    and "out a' = out a @ es" and "out b' = out b @ es"
  shows "\<forall>i. generate_content w1 (now a' + i) = generate_content w2 (now b' + i)"
proof
  fix i
  from assms(1) have "generate_content w1 (now a + (length es + i)) =
      generate_content w2 (now b + (length es + i))" by blast
  then show "generate_content w1 (now a' + i) = generate_content w2 (now b' + i)"
    using assms(2,3) by (simp add: now_def add.assoc)
qed

lemma ask_model_simulation:
  assumes "\<forall>i. generate_content w1 (now a + i) = generate_content w2 (now b + i)"
  shows "fst (ask_model w1 m p a) = fst (ask_model w2 m p b) \<and>
         (\<exists>es. out (snd (ask_model w1 m p a)) = out a @ es \<and>
               out (snd (ask_model w2 m p b)) = out b @ es)"
proof -
  from assms[rule_format, of 0] assms[rule_format, of 1]
  have g0: "generate_content w1 (now a) = generate_content w2 (now b)"
    and g1: "generate_content w1 (Suc (now a)) = generate_content w2 (Suc (now b))"
    by simp_all
  show ?thesis
    by (cases "generate_content w2 (now b) m p";
        cases "generate_content w2 (Suc (now b)) secondary_model p")
       (simp_all add: ask_model_cases g0 g1)
qed

lemma web_fallback_simulation:
  assumes "\<forall>i. generate_content w1 (now a + i) = generate_content w2 (now b + i)"
    and "tavily_invoke w1 = tavily_invoke w2"
  shows "fst (web_fallback w1 q m a) = fst (web_fallback w2 q m b) \<and>
         (\<exists>es. out (snd (web_fallback w1 q m a)) = out a @ es \<and>
               out (snd (web_fallback w2 q m b)) = out b @ es)"
proof -
  from assms(1)[rule_format, of 2]
  have g2: "generate_content w1 (Suc (Suc (now a))) = generate_content w2 (Suc (Suc (now b)))"
    by simp
  show ?thesis
  proof (cases "tavily_invoke w2 3 q")
    case (Inl e)
    then show ?thesis by (simp add: web_fallback_cases assms(2))
  next
    case (Inr wr)
    then show ?thesis
      by (cases "generate_content w2 (Suc (Suc (now b))) m (web_prompt_text wr q)")
         (simp_all add: web_fallback_cases assms(2) g2)
  qed
qed

lemma get_working_model_name_simulation:
  assumes "model_name_cache a = model_name_cache b" and "list_models w1 = list_models w2"
  shows "fst (get_working_model_name w1 a) = fst (get_working_model_name w2 b) \<and>
     (\<exists>es. out (snd (get_working_model_name w1 a)) = out a @ es \<and>
           out (snd (get_working_model_name w2 b)) = out b @ es)"
  using assms by (cases "model_name_cache b") (simp_all add: get_working_model_name_def Let_def)

lemma generate_answer_simulation:
  assumes cache: "model_name_cache s1 = model_name_cache s2"
    and models: "list_models w1 = list_models w2"
    and raises: "tavily_raises w1 = tavily_raises w2"
    and request: "tavily_request w1 = tavily_request w2"
    and alike: "\<forall>i. generate_content w1 (now s1 + i) = generate_content w2 (now s2 + i)"
  shows "fst (generate_answer w1 q vs h1 s1) = fst (generate_answer w2 q vs h2 s2) \<and>
     (\<exists>es. out (snd (generate_answer w1 q vs h1 s1)) = out s1 @ es \<and>
           out (snd (generate_answer w2 q vs h2 s2)) = out s2 @ es)"
proof -
  have t: "tavily_invoke w1 = tavily_invoke w2"
    by (simp add: tavily_invoke_def raises request fun_eq_iff split: option.splits)
  let ?g1 = "get_working_model_name w1 s1" and ?g2 = "get_working_model_name w2 s2"
  from get_working_model_name_simulation[OF cache models] obtain es0 where
    n: "fst ?g1 = fst ?g2" and o0: "out (snd ?g1) = out s1 @ es0" "out (snd ?g2) = out s2 @ es0"
    by blast
  let ?a2 = "emit (SimilaritySearch q 3) (snd ?g1)" and ?b2 = "emit (SimilaritySearch q 3) (snd ?g2)"
  have o2: "out ?a2 = out s1 @ (es0 @ [SimilaritySearch q 3])"
    "out ?b2 = out s2 @ (es0 @ [SimilaritySearch q 3])"
    using o0 by simp_all
  note alike2 = alike_shift[OF alike o2]
  show ?thesis
  proof (cases "similarity_search vs q 3")
    case (Inl e)
    then show ?thesis
      using o2 by (simp add: generate_answer_unfold Let_def del: emit_fields)
  next
    case (Inr docs)
    let ?p = "pdf_prompt_text (join (nl @ nl) (map page_content docs)) q"
    let ?A1 = "ask_model w1 (fst ?g2) ?p ?a2" and ?A2 = "ask_model w2 (fst ?g2) ?p ?b2"
    from ask_model_simulation[OF alike2, of "fst ?g2" ?p] obtain es1 where
      a: "fst ?A1 = fst ?A2" and o3: "out (snd ?A1) = out ?a2 @ es1" "out (snd ?A2) = out ?b2 @ es1"
      by blast
    have o3': "out (snd ?A1) = out s1 @ (es0 @ [SimilaritySearch q 3] @ es1)"
      "out (snd ?A2) = out s2 @ (es0 @ [SimilaritySearch q 3] @ es1)"
      using o3 o2 by simp_all
    show ?thesis
    proof (cases "fst ?A2")
      case (Inl system_error)
      then show ?thesis
        using Inr a o3' by (simp add: generate_answer_unfold Let_def n del: emit_fields)
    next
      case ma: (Inr ma)
      show ?thesis
      proof (cases "str_contains sentinel (snd ma)")
        case False
        then show ?thesis
          using Inr ma a o3' by (simp add: generate_answer_unfold Let_def n del: emit_fields)
      next
        case True
        let ?W1 = "web_fallback w1 q (fst ma) (snd ?A1)" and ?W2 = "web_fallback w2 q (fst ma) (snd ?A2)"
        note alike3 = alike_shift[OF alike o3']
        from web_fallback_simulation[OF alike3 t, of q "fst ma"] obtain es2 where
          w: "fst ?W1 = fst ?W2" and o4: "out (snd ?W1) = out (snd ?A1) @ es2"
            "out (snd ?W2) = out (snd ?A2) @ es2"
          by blast
        have o4': "out (snd ?W1) = out s1 @ (es0 @ [SimilaritySearch q 3] @ es1 @ es2)"
          "out (snd ?W2) = out s2 @ (es0 @ [SimilaritySearch q 3] @ es1 @ es2)"
          using o4 o3' by simp_all
        show ?thesis
          using Inr ma a True w o4'
          by (simp add: generate_answer_unfold Let_def n del: emit_fields)
      qed
    qed
  qed
qed


section \<open>Startup\<close>

text \<open>
  The loop in terms of the loader alone: it raises what the first failing \<open>.pdf\<close> file
  raises, and otherwise returns the pages of all \<open>.pdf\<close> files in the order of the listing.
\<close>

lemma load_pdfs_by_file:
  "fst (load_pdfs w files docs s) =
     (case find isl (map (\<lambda>f. pdf_load w (path_join data_folder f))
                      (filter (\<lambda>f. endswith f ''.pdf'') files)) of
        Some r \<Rightarrow> Inl (projl r)
      | None \<Rightarrow> Inr (docs @ concat (map (\<lambda>f. projr (pdf_load w (path_join data_folder f)))
                      (filter (\<lambda>f. endswith f ''.pdf'') files))))"
proof (induction files arbitrary: docs s)
  case Nil
  then show ?case by simp
next
  case (Cons f files)
  show ?case
  proof (cases "endswith f ''.pdf''")
    case False
    then have "filter (\<lambda>f. endswith f ''.pdf'') (f # files) = filter (\<lambda>f. endswith f ''.pdf'') files"
      by simp
    with False Cons.IH[of docs s] show ?thesis by (simp cong: option.case_cong)
  next
    case True
    then have pdfs: "filter (\<lambda>f. endswith f ''.pdf'') (f # files) =
        f # filter (\<lambda>f. endswith f ''.pdf'') files"
      by simp
    show ?thesis
    proof (cases "pdf_load w (path_join data_folder f)")
      case (Inl e)
      with True show ?thesis unfolding pdfs by (simp add: Let_def)
    next
      case (Inr pages)
      with True show ?thesis
        unfolding pdfs
        using Cons.IH[of "docs @ pages" "emit (PdfLoad (path_join data_folder f)) s"]
        by (cases "find isl (map (\<lambda>f. pdf_load w (path_join data_folder f))
                      (filter (\<lambda>f. endswith f ''.pdf'') files))")
           (simp_all add: Let_def)
    qed
  qed
qed

text \<open>What the body of \<open>get_vector_store\<close> returns and reports, case by case.\<close>

lemma body_outcome:
  "(let b = get_vector_store_body w s;
        errors = shown_errors (emitted s (snd b));
        failed = (\<lambda>msg. fst b = None \<and> errors = [msg])
    in if \<not> path_exists w data_folder then failed no_folder_message
       else case listdir w data_folder of
          Inl e \<Rightarrow> failed (''Error loading PDFs: '' @ detail e)
        | Inr files \<Rightarrow>
            (let pdfs = filter (\<lambda>f. endswith f ''.pdf'') files in
             case find isl (map (\<lambda>f. pdf_load w (path_join data_folder f)) pdfs) of
               Some r \<Rightarrow> failed (''Error loading PDFs: '' @ detail (projl r))
             | None \<Rightarrow>
                 (let documents = concat (map (\<lambda>f. projr (pdf_load w (path_join data_folder f))) pdfs) in
                  if documents = [] then failed no_pdf_message
                  else case split_documents w documents of
                         Inl e \<Rightarrow> failed (''Error loading PDFs: '' @ detail e)
                       | Inr splits \<Rightarrow>
                           (case from_documents w splits of
                              Inl e \<Rightarrow> failed (''Error loading PDFs: '' @ detail e)
                            | Inr v \<Rightarrow> fst b = Some v \<and> errors = []))))"
proof (cases "listdir w data_folder")
  case (Inl e)
  then show ?thesis
    by (simp add: get_vector_store_body_def try_build_def Let_def emitted_def)
next
  case (Inr files)
  let ?S = "emit (ListDir data_folder) (emit (PathExists data_folder) s)"
  define L where "L = find isl (map (\<lambda>f. pdf_load w (path_join data_folder f))
      (filter (\<lambda>f. endswith f ''.pdf'') files))"
  define D where "D = concat (map (\<lambda>f. projr (pdf_load w (path_join data_folder f)))
      (filter (\<lambda>f. endswith f ''.pdf'') files))"
  obtain r1 s1 where l: "load_pdfs w files [] ?S = (r1, s1)"
    by (cases "load_pdfs w files [] ?S")
  from load_pdfs_frame[OF l] obtain es where
    f: "out s1 = out s @ PathExists data_folder # ListDir data_folder # es" "shown_errors es = []"
    by auto
  have r1: "r1 = (case L of Some r \<Rightarrow> Inl (projl r) | None \<Rightarrow> Inr D)"
    using l load_pdfs_by_file[of w files "[]" ?S] by (simp add: L_def D_def cong: option.case_cong)
  have body: "get_vector_store_body w s =
     (if \<not> path_exists w data_folder
      then (None, emit (StError no_folder_message) (emit (PathExists data_folder) s))
      else case L of
         Some r \<Rightarrow> (None, emit (StError (''Error loading PDFs: '' @ detail (projl r))) s1)
       | None \<Rightarrow>
           if D = [] then (None, emit (StError no_pdf_message) s1)
           else case split_documents w D of
                  Inl e \<Rightarrow> (None, emit (StError (''Error loading PDFs: '' @ detail e)) (emit SplitDocuments s1))
                | Inr splits \<Rightarrow>
                    (case from_documents w splits of
                       Inl e \<Rightarrow> (None, emit (StError (''Error loading PDFs: '' @ detail e))
                                  (emit FromDocuments (emit SplitDocuments s1)))
                     | Inr v \<Rightarrow> (Some v, emit FromDocuments (emit SplitDocuments s1))))"
    using Inr l
    by (simp add: get_vector_store_body_def try_build_def Let_def r1 split: option.splits sum.splits)
  have goal: "if \<not> path_exists w data_folder
       then fst (get_vector_store_body w s) = None \<and>
            shown_errors (emitted s (snd (get_vector_store_body w s))) = [no_folder_message]
       else case L of
          Some r \<Rightarrow> fst (get_vector_store_body w s) = None \<and>
            shown_errors (emitted s (snd (get_vector_store_body w s))) =
              [''Error loading PDFs: '' @ detail (projl r)]
        | None \<Rightarrow>
            if D = [] then fst (get_vector_store_body w s) = None \<and>
                shown_errors (emitted s (snd (get_vector_store_body w s))) = [no_pdf_message]
            else case split_documents w D of
                   Inl e \<Rightarrow> fst (get_vector_store_body w s) = None \<and>
                     shown_errors (emitted s (snd (get_vector_store_body w s))) =
                       [''Error loading PDFs: '' @ detail e]
                 | Inr splits \<Rightarrow>
                     (case from_documents w splits of
                        Inl e \<Rightarrow> fst (get_vector_store_body w s) = None \<and>
                          shown_errors (emitted s (snd (get_vector_store_body w s))) =
                            [''Error loading PDFs: '' @ detail e]
                      | Inr v \<Rightarrow> fst (get_vector_store_body w s) = Some v \<and>
                          shown_errors (emitted s (snd (get_vector_store_body w s))) = [])"
    using f by (simp add: body emitted_def split: option.splits sum.splits)
  show ?thesis
    unfolding Let_def Inr sum.case by (rule goal[unfolded L_def D_def])
qed


section \<open>Claims about \<open>generate_answer\<close>\<close>

lemmas eval_defs = demo_world_def guide_store_def process_start_def get_working_model_name_def
   flash_def ask_model_def emit_def now_def Let_def sentinel_def secondary_model_def guide_page_def

text \<open>
  C1 (as amended). When the retrieval returned and the model (the primary one, or the
  secondary one after a failure) gave an answer: if the answer contains \<open>NOT_FOUND\<close>, the
  web search is called exactly once in the whole call, with the query and a limit of 3,
  and the value returned is the result of the fallback: the apology when the search or
  the model call after it fails, the text of that model call otherwise, whatever that
  text is. If the answer does not contain \<open>NOT_FOUND\<close>, it is returned unchanged, no
  event follows it and the web search is never called.
\<close>

theorem sentinel_answer_goes_to_web_fallback:
  assumes "similarity_search vs query 3 = Inr docs"
    and "get_working_model_name w s = (model_name, s1)"
    and "ask_model w model_name (pdf_prompt_text (join (nl @ nl) (map page_content docs)) query)
           (emit (SimilaritySearch query 3) s1) = (Inr (model, answer), s3)"
  shows "\<exists>r s4. generate_answer w query vs h s = (Inr r, s4) \<and>
     (if str_contains sentinel answer
      then web_searches (emitted s s4) = [(3, query)] \<and>
           r = (case tavily_invoke w 3 query of
                  Inl e \<Rightarrow> apology
                | Inr web_results \<Rightarrow>
                    (case generate_content w (now s3 + 2) model (web_prompt_text web_results query) of
                       Inl e \<Rightarrow> apology
                     | Inr final_answer \<Rightarrow> final_answer))
      else r = answer \<and> s4 = s3 \<and> web_searches (emitted s s4) = [])"
proof -
  note frame1 = get_working_model_name_frame(3)[OF assms(2)]
  note frame2 = ask_model_frame(3)[OF assms(3)]
  from frame1 frame2 obtain es where es: "out s3 = out s @ es" "web_searches es = []"
    by auto
  show ?thesis
  proof (cases "str_contains sentinel answer")
    case False
    then show ?thesis
      using es by (simp add: generate_answer_after_answer[OF assms])
  next
    case True
    then show ?thesis
      using es
      by (simp add: generate_answer_after_answer[OF assms] web_fallback_cases emitted_def
          split: sum.splits)
  qed
qed

text \<open>
  The theorem at work: the model misses the answer in the guide, the web search runs
  once, and the user reads the answer drawn from the web results.
\<close>

theorem sentinel_answer_goes_to_web_fallback_witness:
  "fst (generate_answer web_world ''What about 10GB?'' guide_store [] process_start)
     = Inr ''Dialog offers a 10GB plan.''
   \<and> web_searches (emitted process_start
        (snd (generate_answer web_world ''What about 10GB?'' guide_store [] process_start)))
     = [(3, ''What about 10GB?'')]"
proof -
  let ?q = "''What about 10GB?''"
  have h1: "similarity_search guide_store ?q 3 = Inr [guide_page]"
    by (simp add: guide_store_def)
  have h3: "ask_model web_world (fst (get_working_model_name web_world process_start))
       (pdf_prompt_text (join (nl @ nl) (map page_content [guide_page])) ?q)
       (emit (SimilaritySearch ?q 3) (snd (get_working_model_name web_world process_start)))
     = (Inr (''models/gemini-1.5-flash'', ''Sorry: NOT_FOUND''),
        snd (ask_model web_world (fst (get_working_model_name web_world process_start))
          (pdf_prompt_text (join (nl @ nl) (map page_content [guide_page])) ?q)
          (emit (SimilaritySearch ?q 3) (snd (get_working_model_name web_world process_start)))))"
    by (simp add: web_world_def eval_defs)
  have t: "now (snd (ask_model web_world (fst (get_working_model_name web_world process_start))
          (pdf_prompt_text (join (nl @ nl) (map page_content [guide_page])) ?q)
          (emit (SimilaritySearch ?q 3) (snd (get_working_model_name web_world process_start))))) = 3"
    by (simp add: web_world_def eval_defs)
  have c: "str_contains sentinel ''Sorry: NOT_FOUND''"
    by (simp add: sentinel_def)
  from sentinel_answer_goes_to_web_fallback[OF h1 surjective_pairing h3, of "[]"]
  show ?thesis
    unfolding t using c by (auto simp: web_world_def demo_world_def tavily_invoke_def reply_text_def)
qed

text \<open>
  C1 as stated fails: the text of the fallback's model call is returned unchecked. A
  model that answers \<open>NOT_FOUND\<close> to the first prompt and again to the prompt with the web
  results sends the user through the fallback (one web search) and then shows the
  sentinel-containing answer itself.
\<close>

theorem sentinel_shown_after_fallback_counterexample:
  "generate_content sentinel_world 2 ''models/gemini-1.5-flash''
      (pdf_prompt_text (page_content guide_page) ''q'') = Inr ''NOT_FOUND''
   \<and> str_contains sentinel ''NOT_FOUND''
   \<and> web_searches (emitted process_start
        (snd (generate_answer sentinel_world ''q'' guide_store [] process_start))) = [(3, ''q'')]
   \<and> fst (generate_answer sentinel_world ''q'' guide_store [] process_start) = Inr ''NOT_FOUND''"
  by (simp add: generate_answer_def web_fallback_def sentinel_world_def eval_defs emitted_def
      tavily_invoke_def reply_text_def)

text \<open>
  C3 (as amended). \<open>generate_answer\<close> raises exactly when the retrieval raises, and then
  with the retrieval's exception: the call to \<open>similarity_search\<close> stands outside every
  \<open>try\<close>. When the retrieval returns, every failure of a model call or of the web search
  is caught and the function returns a text.
\<close>

theorem generate_answer_raises_iff_retrieval_raises:
  "(case similarity_search vs query 3 of
      Inl e \<Rightarrow> fst (generate_answer w query vs h s) = Inl e
    | Inr docs \<Rightarrow> (\<exists>text. fst (generate_answer w query vs h s) = Inr text))"
  by (auto simp: generate_answer_def Let_def split: sum.splits prod.splits)

text \<open>
  C3 as stated fails: an index whose search raises makes \<open>generate_answer\<close> raise the
  same exception, with every service up.
\<close>

theorem retrieval_failure_propagates_counterexample:
  "fst (generate_answer demo_world ''price?'' broken_store [] process_start)
     = Inl (PyException ''embedding model unavailable'')"
  by (simp add: generate_answer_def broken_store_def eval_defs)

text \<open>
  C4. When the retrieval returned and the call to the primary model fails with \<open>e\<close>, the
  function returns normally, and the model calls of the whole call start with the
  primary model and then \<open>models/gemini-1.0-pro\<close>, both with the same prompt; no other
  model call has that prompt, so there is exactly one retry. If the retry fails too, the
  result is \<open>System Error:\<close> followed by the detail of the first failure \<open>e\<close>, nothing else
  is called. If the retry answers, the answer is handled as the primary model's would be.
\<close>

theorem primary_failure_retries_secondary_once:
  assumes "similarity_search vs query 3 = Inr docs"
    and "get_working_model_name w s = (model_name, s1)"
    and "prompt = pdf_prompt_text (join (nl @ nl) (map page_content docs)) query"
    and "generate_content w (Suc (now s1)) model_name prompt = Inl e"
  shows "\<exists>r s'. generate_answer w query vs h s = (Inr r, s') \<and>
     take 2 (model_calls (emitted s s')) = [(model_name, prompt), (secondary_model, prompt)] \<and>
     length (filter (\<lambda>c. snd c = prompt) (model_calls (emitted s s'))) = 2 \<and>
     (case generate_content w (Suc (Suc (now s1))) secondary_model prompt of
        Inl e2 \<Rightarrow> r = ''System Error: '' @ detail e \<and>
          model_calls (emitted s s') = [(model_name, prompt), (secondary_model, prompt)] \<and>
          web_searches (emitted s s') = []
      | Inr answer \<Rightarrow>
          (if str_contains sentinel answer then web_searches (emitted s s') = [(3, query)]
           else r = answer))"
proof -
  from get_working_model_name_frame(3)[OF assms(2)]
  obtain es where es: "out s1 = out s @ es" "model_calls es = []" "web_searches es = []"
    by auto
  show ?thesis
    using assms(1,3,4) es prompts_differ
    by (auto simp: generate_answer_def assms(2) ask_model_def web_fallback_cases emitted_def
        Let_def now_def emit_def split: sum.splits)
qed

text \<open>
  The theorem at work: both models are down, each with its own error; the user reads the
  error of the primary model, after two model calls.
\<close>

theorem primary_failure_retries_secondary_once_witness:
  "generate_answer outage_world ''q'' guide_store [] process_start =
     (Inr ''System Error: primary down'',
      process_start\<lparr>model_name_cache := Some ''models/gemini-1.5-flash'',
        out := [ListModels, SimilaritySearch ''q'' 3,
          GenerateContent ''models/gemini-1.5-flash'' (pdf_prompt_text (page_content guide_page) ''q''),
          GenerateContent ''models/gemini-1.0-pro'' (pdf_prompt_text (page_content guide_page) ''q'')]\<rparr>)"
proof -
  have h1: "similarity_search guide_store ''q'' 3 = Inr [guide_page]"
    by (simp add: guide_store_def)
  have h4: "generate_content outage_world
      (Suc (now (snd (get_working_model_name outage_world process_start))))
      (fst (get_working_model_name outage_world process_start))
      (pdf_prompt_text (join (nl @ nl) (map page_content [guide_page])) ''q'')
      = Inl (PyException ''primary down'')"
    by (simp add: outage_world_def eval_defs)
  from primary_failure_retries_secondary_once[OF h1 surjective_pairing refl h4, of "[]"]
  show ?thesis
    by (simp add: generate_answer_def outage_world_def eval_defs)
qed




text \<open>
  C10. The answer does not depend on the conversation so far: take two calls with the
  same query and index, in two states that may differ in the session history, in what
  has been drawn and in the third argument, and in two environments whose services answer
  alike call by call (the same model list, the same search tool, the same model replies at
  the same number of steps after the start of the call). Then the two calls return the
  same value and take the same steps (the same retrieval, prompts and fallback), and
  neither changes its session's history.
\<close>

theorem generate_answer_ignores_history:
  assumes "model_name_cache s1 = model_name_cache s2"
    and "list_models w1 = list_models w2"
    and "tavily_raises w1 = tavily_raises w2"
    and "tavily_request w1 = tavily_request w2"
    and "\<forall>i. generate_content w1 (now s1 + i) = generate_content w2 (now s2 + i)"
  shows "fst (generate_answer w1 query vs h1 s1) = fst (generate_answer w2 query vs h2 s2)
     \<and> emitted s1 (snd (generate_answer w1 query vs h1 s1))
         = emitted s2 (snd (generate_answer w2 query vs h2 s2))
     \<and> messages (snd (generate_answer w1 query vs h1 s1)) = messages s1
     \<and> messages (snd (generate_answer w2 query vs h2 s2)) = messages s2"
proof -
  from generate_answer_simulation[OF assms, of query vs h1 h2] obtain es where
    same: "fst (generate_answer w1 query vs h1 s1) = fst (generate_answer w2 query vs h2 s2)"
      "out (snd (generate_answer w1 query vs h1 s1)) = out s1 @ es"
      "out (snd (generate_answer w2 query vs h2 s2)) = out s2 @ es"
    by blast
  have m: "messages (snd (generate_answer w query vs h s)) = messages s" for w h s
    using generate_answer_frame[of w query vs h s] by (cases "generate_answer w query vs h s") simp
  from same m show ?thesis by simp
qed

text \<open>
  The theorem at work: the same question in a conversation of three turns and in a
  session that was only greeted; the second session has drawn one element more, so its
  model replies come one step later.
\<close>

theorem generate_answer_ignores_history_witness:
  "session_messages chatting \<noteq> session_messages greeted
   \<and> fst (generate_answer (sentinel_at 1) ''price?'' guide_store (session_messages chatting) chatting)
       = Inr ''Dialog offers a 10GB plan.''
   \<and> fst (generate_answer (sentinel_at 2) ''price?'' guide_store (session_messages greeted) greeted)
       = fst (generate_answer (sentinel_at 1) ''price?'' guide_store (session_messages chatting) chatting)"
proof -
  have c: "model_name_cache chatting = model_name_cache greeted"
    and l: "list_models (sentinel_at 1) = list_models (sentinel_at 2)"
    and r: "tavily_raises (sentinel_at 1) = tavily_raises (sentinel_at 2)"
    and q: "tavily_request (sentinel_at 1) = tavily_request (sentinel_at 2)"
    and a: "\<forall>i. generate_content (sentinel_at 1) (now chatting + i)
               = generate_content (sentinel_at 2) (now greeted + i)"
    by (simp_all add: sentinel_at_def greeted_def chatting_def now_def)
  have first: "fst (generate_answer (sentinel_at 1) ''price?'' guide_store
        (session_messages chatting) chatting) = Inr ''Dialog offers a 10GB plan.''"
    by (simp add: generate_answer_def web_fallback_def sentinel_at_def chatting_def eval_defs
        tavily_invoke_def reply_text_def)
  have differ: "session_messages chatting \<noteq> session_messages greeted"
    by (simp add: session_messages_def greeted_def chatting_def)
  from generate_answer_ignores_history[OF c l r q a, of "''price?''" guide_store
      "session_messages chatting" "session_messages greeted"]
  show ?thesis
    using first differ by simp
qed


section \<open>Claims about the script\<close>

lemmas script_defs = script_run_def script_pass_def get_vector_store_def get_vector_store_body_def
   try_build_def chat_interface_def generate_answer_def web_fallback_def render_history_def
   session_messages_def append_message_def falsy_def no_interaction_def emitted_def data_folder_def
   path_join_def endswith_def chat_rendered_def tavily_invoke_def reply_text_def

text \<open>
  C2 (as amended). With both credentials present, the clear-conversation action, from any
  state, sets the session history to the empty list, discarding all prior turns: the
  handler stores \<open>[]\<close> under the key \<open>messages\<close>, and the greeting is seeded only when
  that key is absent. The run after the click draws no message.
\<close>

theorem clear_empties_history:
  assumes "\<not> falsy (google_api_key w)" and "\<not> falsy (tavily_api_key w)"
  shows "messages (snd (script_run w \<lparr>clear_clicked = True, chat_input = ci\<rparr> s)) = Some []
     \<and> shown_messages (emitted s (snd (script_run w \<lparr>clear_clicked = True, chat_input = ci\<rparr> s))) = []"
proof -
  let ?sA = "emit StRerun (s\<lparr>messages := Some []\<rparr>)"
  obtain r sB where g: "get_vector_store w ?sA = (r, sB)"
    by (cases "get_vector_store w ?sA")
  from get_vector_store_frame[OF g] obtain es where
    f: "messages sB = Some []" "out sB = out s @ StRerun # es" "list_all build_event es"
    by auto
  have run: "script_run w \<lparr>clear_clicked = True, chat_input = ci\<rparr> s =
     (case r of None \<Rightarrow> (Completed, sB) | Some vs \<Rightarrow> chat_interface w vs None sB)"
    using assms g by (simp add: script_run_def script_pass_def no_interaction_def split: option.splits)
  show ?thesis
    using f build_events_silent(1)[OF f(3)]
    by (cases r) (simp_all add: run chat_interface_idle emitted_def)
qed

text \<open>The theorem at work on a conversation of three turns.\<close>

theorem clear_empties_history_witness:
  "messages (snd (script_run demo_world \<lparr>clear_clicked = True, chat_input = None\<rparr> chatting)) = Some []
   \<and> shown_messages (emitted chatting
        (snd (script_run demo_world \<lparr>clear_clicked = True, chat_input = None\<rparr> chatting))) = []"
proof -
  have k: "\<not> falsy (google_api_key demo_world)" "\<not> falsy (tavily_api_key demo_world)"
    by (simp_all add: demo_world_def falsy_def)
  from clear_empties_history[OF k] show ?thesis by simp
qed

text \<open>
  C2 as stated fails: after a clear the history of a three-turn conversation has length
  zero, not one, and no greeting is drawn.
\<close>

theorem clear_leaves_no_greeting_counterexample:
  "session_messages chatting = [greeting, \<lparr>role = ''human'', content = ''hi''\<rparr>, \<lparr>role = ''ai'', content = ''Hello.''\<rparr>]
   \<and> session_messages (snd (script_run demo_world \<lparr>clear_clicked = True, chat_input = None\<rparr> chatting)) = []
   \<and> length (shown_messages (emitted chatting
        (snd (script_run demo_world \<lparr>clear_clicked = True, chat_input = None\<rparr> chatting)))) = 0"
  by (simp add: script_run_def script_pass_def no_interaction_def chatting_def demo_world_def falsy_def
      get_vector_store_def chat_interface_def session_messages_def render_history_def emit_def
      emitted_def Let_def)

text \<open>
  C6 (as amended). At the start of the process (nothing cached, no interaction yet) the
  run shows exactly one error box and no chat surface in each of these cases, taken in
  this order: a credential is absent or empty (the keys message); the folder does not
  exist (the folder message); listing the folder raises, or the loader raises on some
  \<open>.pdf\<close> file of the listing, the first such file deciding (\<open>Error loading PDFs:\<close> with
  the exception's detail); the \<open>.pdf\<close> files of the listing, none in particular, yield no
  page (the no-PDF message); splitting or building the index raises (\<open>Error loading
  PDFs:\<close> again). In the one remaining case the chat surface is drawn and no error is
  shown. So a missing credential, a missing folder or a folder without a \<open>.pdf\<close> file
  always ends in one error and no chat.
\<close>

theorem startup_renders_chat_iff_index_built:
  "vector_store_cache s = None \<longrightarrow>
   (let run = emitted s (snd (script_run w no_interaction s));
        halted = (\<lambda>msg. \<not> chat_rendered run \<and> shown_errors run = [msg])
    in (if falsy (google_api_key w) \<or> falsy (tavily_api_key w) then halted keys_missing_message
        else if \<not> path_exists w data_folder then halted no_folder_message
        else case listdir w data_folder of
           Inl e \<Rightarrow> halted (''Error loading PDFs: '' @ detail e)
         | Inr files \<Rightarrow>
             (let pdfs = filter (\<lambda>f. endswith f ''.pdf'') files in
              case find isl (map (\<lambda>f. pdf_load w (path_join data_folder f)) pdfs) of
                Some r \<Rightarrow> halted (''Error loading PDFs: '' @ detail (projl r))
              | None \<Rightarrow>
                  (let documents = concat (map (\<lambda>f. projr (pdf_load w (path_join data_folder f))) pdfs) in
                   if documents = [] then halted no_pdf_message
                   else case split_documents w documents of
                          Inl e \<Rightarrow> halted (''Error loading PDFs: '' @ detail e)
                        | Inr splits \<Rightarrow>
                            (case from_documents w splits of
                               Inl e \<Rightarrow> halted (''Error loading PDFs: '' @ detail e)
                             | Inr v \<Rightarrow> chat_rendered run \<and> shown_errors run = []))))
       \<and> (falsy (google_api_key w) \<or> falsy (tavily_api_key w) \<or> \<not> path_exists w data_folder \<or>
            (\<exists>files. listdir w data_folder = Inr files \<and> \<not> (\<exists>f \<in> set files. endswith f ''.pdf'')) \<longrightarrow>
          halted (if falsy (google_api_key w) \<or> falsy (tavily_api_key w) then keys_missing_message
                  else if \<not> path_exists w data_folder then no_folder_message
                  else no_pdf_message)))"
proof (intro impI)
  assume cache: "vector_store_cache s = None"
  let ?run = "emitted s (snd (script_run w no_interaction s))"
  let ?keys = "\<not> falsy (google_api_key w) \<and> \<not> falsy (tavily_api_key w)"
  obtain r sB where b: "get_vector_store_body w s = (r, sB)"
    by (cases "get_vector_store_body w s")
  from get_vector_store_body_frame[OF b] obtain es where
    f: "out sB = out s @ es" "list_all build_event es"
    by auto
  have stopped: "\<not> ?keys \<Longrightarrow>
      script_run w no_interaction s = (Stopped, emit StStop (emit (StError keys_missing_message) s))"
    by (auto simp: script_run_def script_pass_def)
  have started: "?keys \<Longrightarrow> script_run w no_interaction s =
      (case r of None \<Rightarrow> (Completed, sB\<lparr>vector_store_cache := Some None\<rparr>)
       | Some vs \<Rightarrow> chat_interface w vs None (sB\<lparr>vector_store_cache := Some (Some vs)\<rparr>))"
    using cache b
    by (simp add: script_run_no_clear no_interaction_def script_pass_def get_vector_store_def
        split: option.splits)
  have no_keys: "\<not> chat_rendered ?run \<and> shown_errors ?run = [keys_missing_message]" if "\<not> ?keys"
    using stopped[OF that] by (simp add: chat_rendered_def emitted_def)
  have halted: "\<not> chat_rendered ?run \<and> shown_errors ?run = [msg]"
    if "?keys" "r = None \<and> shown_errors (emitted s sB) = [msg]" for msg
    using that f build_events_silent(5)[OF f(2)]
    by (simp add: started[OF that(1)] emitted_def chat_rendered_def)
  have ready: "chat_rendered ?run \<and> shown_errors ?run = []"
    if "?keys" "r = Some v \<and> shown_errors (emitted s sB) = []" for v
    using that f
    by (simp add: started[OF that(1)] chat_interface_idle emitted_def chat_rendered_def)
  note outcome = body_outcome[of w s, unfolded Let_def b fst_conv snd_conv]
  have cases: "if falsy (google_api_key w) \<or> falsy (tavily_api_key w)
        then \<not> chat_rendered ?run \<and> shown_errors ?run = [keys_missing_message]
        else if \<not> path_exists w data_folder
        then \<not> chat_rendered ?run \<and> shown_errors ?run = [no_folder_message]
        else case listdir w data_folder of
           Inl e \<Rightarrow> \<not> chat_rendered ?run \<and> shown_errors ?run = [''Error loading PDFs: '' @ detail e]
         | Inr files \<Rightarrow>
             (case find isl (map (\<lambda>f. pdf_load w (path_join data_folder f))
                      (filter (\<lambda>f. endswith f ''.pdf'') files)) of
                Some r \<Rightarrow> \<not> chat_rendered ?run \<and>
                   shown_errors ?run = [''Error loading PDFs: '' @ detail (projl r)]
              | None \<Rightarrow>
                  if concat (map (\<lambda>f. projr (pdf_load w (path_join data_folder f)))
                       (filter (\<lambda>f. endswith f ''.pdf'') files)) = []
                  then \<not> chat_rendered ?run \<and> shown_errors ?run = [no_pdf_message]
                  else case split_documents w (concat (map (\<lambda>f. projr (pdf_load w (path_join data_folder f)))
                       (filter (\<lambda>f. endswith f ''.pdf'') files))) of
                          Inl e \<Rightarrow> \<not> chat_rendered ?run \<and>
                             shown_errors ?run = [''Error loading PDFs: '' @ detail e]
                        | Inr splits \<Rightarrow>
                            (case from_documents w splits of
                               Inl e \<Rightarrow> \<not> chat_rendered ?run \<and>
                                  shown_errors ?run = [''Error loading PDFs: '' @ detail e]
                             | Inr v \<Rightarrow> chat_rendered ?run \<and> shown_errors ?run = []))"
  proof (cases ?keys)
    case False
    with no_keys show ?thesis by auto
  next
    case True
    show ?thesis
    proof (cases "listdir w data_folder")
      case (Inl e)
      with outcome True halted show ?thesis by (auto split: if_splits)
    next
      case (Inr files)
      define L where "L = find isl (map (\<lambda>f. pdf_load w (path_join data_folder f))
          (filter (\<lambda>f. endswith f ''.pdf'') files))"
      define D where "D = concat (map (\<lambda>f. projr (pdf_load w (path_join data_folder f)))
          (filter (\<lambda>f. endswith f ''.pdf'') files))"
      note o = outcome[unfolded Inr sum.case, folded L_def D_def]
      have "if \<not> path_exists w data_folder
        then \<not> chat_rendered ?run \<and> shown_errors ?run = [no_folder_message]
        else case L of
                Some r \<Rightarrow> \<not> chat_rendered ?run \<and>
                   shown_errors ?run = [''Error loading PDFs: '' @ detail (projl r)]
              | None \<Rightarrow>
                  if D = [] then \<not> chat_rendered ?run \<and> shown_errors ?run = [no_pdf_message]
                  else case split_documents w D of
                          Inl e \<Rightarrow> \<not> chat_rendered ?run \<and>
                             shown_errors ?run = [''Error loading PDFs: '' @ detail e]
                        | Inr splits \<Rightarrow>
                            (case from_documents w splits of
                               Inl e \<Rightarrow> \<not> chat_rendered ?run \<and>
                                  shown_errors ?run = [''Error loading PDFs: '' @ detail e]
                             | Inr v \<Rightarrow> chat_rendered ?run \<and> shown_errors ?run = [])"
        using o halted[OF True] ready[OF True]
        by (auto split: if_splits option.splits sum.splits)
      from this[unfolded L_def D_def] True show ?thesis
        unfolding Inr sum.case by simp
    qed
  qed
  have named: "\<not> chat_rendered ?run \<and> shown_errors ?run =
        [if falsy (google_api_key w) \<or> falsy (tavily_api_key w) then keys_missing_message
         else if \<not> path_exists w data_folder then no_folder_message
         else no_pdf_message]"
    if bad: "falsy (google_api_key w) \<or> falsy (tavily_api_key w) \<or> \<not> path_exists w data_folder \<or>
            (\<exists>files. listdir w data_folder = Inr files \<and> \<not> (\<exists>f \<in> set files. endswith f ''.pdf''))"
  proof (cases "?keys \<and> path_exists w data_folder")
    case False
    with cases show ?thesis by (auto split: if_splits)
  next
    case True
    with bad obtain files where
      fs: "listdir w data_folder = Inr files" "filter (\<lambda>f. endswith f ''.pdf'') files = []"
      by (auto simp: filter_empty_conv)
    from cases True show ?thesis
      unfolding fs sum.case by simp
  qed
  show "let run = ?run;
        halted = (\<lambda>msg. \<not> chat_rendered run \<and> shown_errors run = [msg])
    in (if falsy (google_api_key w) \<or> falsy (tavily_api_key w) then halted keys_missing_message
        else if \<not> path_exists w data_folder then halted no_folder_message
        else case listdir w data_folder of
           Inl e \<Rightarrow> halted (''Error loading PDFs: '' @ detail e)
         | Inr files \<Rightarrow>
             (let pdfs = filter (\<lambda>f. endswith f ''.pdf'') files in
              case find isl (map (\<lambda>f. pdf_load w (path_join data_folder f)) pdfs) of
                Some r \<Rightarrow> halted (''Error loading PDFs: '' @ detail (projl r))
              | None \<Rightarrow>
                  (let documents = concat (map (\<lambda>f. projr (pdf_load w (path_join data_folder f))) pdfs) in
                   if documents = [] then halted no_pdf_message
                   else case split_documents w documents of
                          Inl e \<Rightarrow> halted (''Error loading PDFs: '' @ detail e)
                        | Inr splits \<Rightarrow>
                            (case from_documents w splits of
                               Inl e \<Rightarrow> halted (''Error loading PDFs: '' @ detail e)
                             | Inr v \<Rightarrow> chat_rendered run \<and> shown_errors run = []))))
       \<and> (falsy (google_api_key w) \<or> falsy (tavily_api_key w) \<or> \<not> path_exists w data_folder \<or>
            (\<exists>files. listdir w data_folder = Inr files \<and> \<not> (\<exists>f \<in> set files. endswith f ''.pdf'')) \<longrightarrow>
          halted (if falsy (google_api_key w) \<or> falsy (tavily_api_key w) then keys_missing_message
                  else if \<not> path_exists w data_folder then no_folder_message
                  else no_pdf_message))"
    unfolding Let_def by (rule conjI, rule cases, rule impI, erule named)
qed



text \<open>
  The theorem at work: a folder without a PDF shows the no-PDF error and no chat; an
  unreadable PDF shows the loader's error; a readable guide shows the chat.
\<close>

theorem startup_renders_chat_iff_index_built_witness:
  "\<not> chat_rendered (emitted process_start (snd (script_run empty_folder_world no_interaction process_start)))
   \<and> shown_errors (emitted process_start (snd (script_run empty_folder_world no_interaction process_start)))
       = [no_pdf_message]
   \<and> shown_errors (emitted process_start (snd (script_run corrupt_world no_interaction process_start)))
       = [''Error loading PDFs: not a PDF'']
   \<and> chat_rendered (emitted process_start (snd (script_run demo_world no_interaction process_start)))"
proof -
  have c: "vector_store_cache process_start = None"
    by (simp add: process_start_def)
  have e: "\<not> falsy (google_api_key empty_folder_world)" "\<not> falsy (tavily_api_key empty_folder_world)"
      "path_exists empty_folder_world data_folder"
      "listdir empty_folder_world data_folder = Inr [''readme.txt'']"
    by (simp_all add: empty_folder_world_def demo_world_def falsy_def data_folder_def)
  have k: "\<not> falsy (google_api_key corrupt_world)" "\<not> falsy (tavily_api_key corrupt_world)"
      "path_exists corrupt_world data_folder"
      "listdir corrupt_world data_folder = Inr [''guide.pdf'', ''readme.txt'']"
      "pdf_load corrupt_world p = Inl (PyException ''not a PDF'')" for p
    by (simp_all add: corrupt_world_def demo_world_def falsy_def data_folder_def)
  have d: "\<not> falsy (google_api_key demo_world)" "\<not> falsy (tavily_api_key demo_world)"
      "path_exists demo_world data_folder"
      "listdir demo_world data_folder = Inr [''guide.pdf'', ''readme.txt'']"
      "pdf_load demo_world p = Inr [guide_page]"
      "split_documents demo_world ds = Inr ds" "from_documents demo_world ds = Inr guide_store" for p ds
    by (simp_all add: demo_world_def falsy_def data_folder_def)
  have pdf: "endswith ''guide.pdf'' ''.pdf''" "\<not> endswith ''readme.txt'' ''.pdf''"
    by (simp_all add: endswith_def)
  from startup_renders_chat_iff_index_built[rule_format, OF c, of empty_folder_world, unfolded Let_def]
       startup_renders_chat_iff_index_built[rule_format, OF c, of corrupt_world, unfolded Let_def]
       startup_renders_chat_iff_index_built[rule_format, OF c, of demo_world, unfolded Let_def]
  show ?thesis
    by (simp add: e k d pdf)
qed


text \<open>
  C6 as stated fails in its last part: with both credentials, an existing folder and a
  file named \<open>guide.pdf\<close> in it, the chat surface is still not drawn when the loader
  cannot read the file.
\<close>

theorem unreadable_pdf_blocks_chat_counterexample:
  "\<not> falsy (google_api_key corrupt_world) \<and> \<not> falsy (tavily_api_key corrupt_world)
   \<and> path_exists corrupt_world data_folder
   \<and> listdir corrupt_world data_folder = Inr [''guide.pdf'', ''readme.txt'']
   \<and> endswith ''guide.pdf'' ''.pdf''
   \<and> \<not> chat_rendered (emitted process_start
         (snd (script_run corrupt_world no_interaction process_start)))"
  by (simp add: script_defs eval_defs corrupt_world_def load_pdfs.simps)


text \<open>
  C7 (as amended). In a run without a click on clear, the history before the run is a
  prefix of the history after it: nothing is changed, removed or reordered. A submission
  (credentials present, index available, non-empty input) draws the history in order,
  appends and draws the human message, opens the ai bubble and calls \<open>generate_answer\<close>
  with the input, the index and the history just extended. When that call returns (the
  retrieval returned), its value fills the bubble and is appended as the ai message: the
  history has grown by exactly two, and the bubbles drawn are the history after the run.
  When that call raises (the retrieval raised), the run ends with the exception, the
  history has grown by the human message only, and the page shows the history followed
  by the ai bubble left empty.
\<close>

theorem submission_appends_human_then_ai:
  "(\<not> clear_clicked wd \<longrightarrow>
      prefix (session_messages s) (session_messages (snd (script_run w wd s))))
   \<and> (\<not> falsy (google_api_key w) \<and> \<not> falsy (tavily_api_key w)
        \<and> fst (get_vector_store w s) = Some vs
        \<and> \<not> clear_clicked wd \<and> chat_input wd = Some inp \<and> inp \<noteq> [] \<longrightarrow>
      (let sB = snd (get_vector_store w s);
           h = (case messages s of None \<Rightarrow> [greeting] | Some h \<Rightarrow> h);
           human = \<lparr>role = ''human'', content = inp\<rparr>;
           s5 = sB\<lparr>messages := Some (h @ [human]),
                   out := out sB @ map render_message h @
                     [ChatInput input_placeholder, ChatMessage ''human'' bust inp,
                      ChatOpen ''ai'' antenna]\<rparr>;
           s' = snd (script_run w wd s)
       in case fst (generate_answer w inp vs (h @ [human]) s5) of
            Inl e \<Rightarrow>
              similarity_search vs inp 3 = Inl e
              \<and> fst (script_run w wd s) = Crashed e
              \<and> session_messages s' = h @ [human]
              \<and> shown_messages (emitted s s') = h @ [human]
              \<and> ChatOpen ''ai'' antenna \<in> set (emitted s s')
          | Inr response \<Rightarrow>
              (\<exists>docs. similarity_search vs inp 3 = Inr docs)
              \<and> fst (script_run w wd s) = Completed
              \<and> session_messages s' = h @ [human, \<lparr>role = ''ai'', content = response\<rparr>]
              \<and> shown_messages (emitted s s') = session_messages s'
              \<and> last (emitted s s') = ChatMessage ''ai'' antenna response))"
proof (intro conjI impI)
  assume "\<not> clear_clicked wd"
  then show "prefix (session_messages s) (session_messages (snd (script_run w wd s)))"
    by (simp add: script_run_no_clear script_pass_append_only)
next
  assume a: "\<not> falsy (google_api_key w) \<and> \<not> falsy (tavily_api_key w)
        \<and> fst (get_vector_store w s) = Some vs
        \<and> \<not> clear_clicked wd \<and> chat_input wd = Some inp \<and> inp \<noteq> []"
  define sB where "sB = snd (get_vector_store w s)"
  have gv: "get_vector_store w s = (Some vs, sB)"
    using a by (cases "get_vector_store w s") (auto simp: sB_def)
  from get_vector_store_frame[OF gv] obtain es0 where
    fB: "messages sB = messages s" "out sB = out s @ es0" "list_all build_event es0"
    by auto
  define h where "h = (case messages sB of None \<Rightarrow> [greeting] | Some h \<Rightarrow> h)"
  define human where "human = \<lparr>role = ''human'', content = inp\<rparr>"
  define pre where "pre = map render_message h @
      [ChatInput input_placeholder, ChatMessage ''human'' bust inp, ChatOpen ''ai'' antenna]"
  define s5 where "s5 = sB\<lparr>messages := Some (h @ [\<lparr>role = ''human'', content = inp\<rparr>]),
                 out := out sB @ map render_message h @
                   [ChatInput input_placeholder, ChatMessage ''human'' bust inp,
                    ChatOpen ''ai'' antenna]\<rparr>"
  obtain r s6 where g: "generate_answer w inp vs (h @ [\<lparr>role = ''human'', content = inp\<rparr>]) s5 = (r, s6)"
    by (cases "generate_answer w inp vs (h @ [\<lparr>role = ''human'', content = inp\<rparr>]) s5")
  from generate_answer_frame[OF g] obtain es1 where
    f6: "messages s6 = Some (h @ [human])" "out s6 = out s @ es0 @ pre @ es1"
        "list_all answer_event es1"
    by (auto simp: s5_def human_def pre_def fB)
  have quiet: "shown_messages es0 = []" "shown_messages es1 = []"
    and shown_pre: "shown_messages pre = h @ [human]" and open_pre: "ChatOpen ''ai'' antenna \<in> set pre"
    using build_events_silent(1)[OF fB(3)] answer_events_silent(1)[OF f6(3)]
    by (simp_all add: pre_def human_def)
  have run: "script_run w wd s =
     (case r of Inl e \<Rightarrow> (Crashed e, s6)
      | Inr response_text \<Rightarrow>
          (Completed, s6\<lparr>out := out s6 @ [ChatMessage ''ai'' antenna response_text],
             messages := Some (session_messages s6 @ [\<lparr>role = ''ai'', content = response_text\<rparr>])\<rparr>))"
    using a by (simp add: script_run_no_clear script_pass_def gv
        chat_interface_submit[OF _ h_def s5_def] g split: sum.splits)
  have res: "(case similarity_search vs inp 3 of Inl e \<Rightarrow> r = Inl e | Inr docs \<Rightarrow> (\<exists>t. r = Inr t))"
    using generate_answer_outcome[where vs = vs and q = inp and w = w and h = "h @ [human]" and s = s5] g
    by (auto simp: human_def split: sum.splits)
  have hs: "h = (case messages s of None \<Rightarrow> [greeting] | Some h \<Rightarrow> h)"
    by (simp add: h_def fB)
  have main: "case r of
            Inl e \<Rightarrow>
              similarity_search vs inp 3 = Inl e
              \<and> fst (script_run w wd s) = Crashed e
              \<and> session_messages (snd (script_run w wd s)) = h @ [human]
              \<and> shown_messages (emitted s (snd (script_run w wd s))) = h @ [human]
              \<and> ChatOpen ''ai'' antenna \<in> set (emitted s (snd (script_run w wd s)))
          | Inr response \<Rightarrow>
              (\<exists>docs. similarity_search vs inp 3 = Inr docs)
              \<and> fst (script_run w wd s) = Completed
              \<and> session_messages (snd (script_run w wd s)) = h @ [human, \<lparr>role = ''ai'', content = response\<rparr>]
              \<and> shown_messages (emitted s (snd (script_run w wd s))) = session_messages (snd (script_run w wd s))
              \<and> last (emitted s (snd (script_run w wd s))) = ChatMessage ''ai'' antenna response"
  proof (cases r)
    case (Inl e)
    with res have "similarity_search vs inp 3 = Inl e"
      by (auto split: sum.splits)
    with Inl f6 quiet shown_pre open_pre show ?thesis
      by (simp add: run session_messages_def emitted_def)
  next
    case (Inr response)
    with res have "\<exists>docs. similarity_search vs inp 3 = Inr docs"
      by (auto split: sum.splits)
    with Inr f6 quiet shown_pre show ?thesis
      by (simp add: run session_messages_def emitted_def)
  qed
  have fold: "fst (generate_answer w inp vs (h @ [human]) s5) = r"
    using g by (simp add: human_def)
  show "(let sB = snd (get_vector_store w s);
           h = (case messages s of None \<Rightarrow> [greeting] | Some h \<Rightarrow> h);
           human = \<lparr>role = ''human'', content = inp\<rparr>;
           s5 = sB\<lparr>messages := Some (h @ [human]),
                   out := out sB @ map render_message h @
                     [ChatInput input_placeholder, ChatMessage ''human'' bust inp,
                      ChatOpen ''ai'' antenna]\<rparr>;
           s' = snd (script_run w wd s)
       in case fst (generate_answer w inp vs (h @ [human]) s5) of
            Inl e \<Rightarrow>
              similarity_search vs inp 3 = Inl e
              \<and> fst (script_run w wd s) = Crashed e
              \<and> session_messages s' = h @ [human]
              \<and> shown_messages (emitted s s') = h @ [human]
              \<and> ChatOpen ''ai'' antenna \<in> set (emitted s s')
          | Inr response \<Rightarrow>
              (\<exists>docs. similarity_search vs inp 3 = Inr docs)
              \<and> fst (script_run w wd s) = Completed
              \<and> session_messages s' = h @ [human, \<lparr>role = ''ai'', content = response\<rparr>]
              \<and> shown_messages (emitted s s') = session_messages s'
              \<and> last (emitted s s') = ChatMessage ''ai'' antenna response)"
    unfolding Let_def sB_def[symmetric] hs[symmetric] human_def[symmetric]
      s5_def[unfolded human_def[symmetric], symmetric] fold
    by (rule main)
qed

text \<open>The theorem at work: a question in the middle of a conversation, all services up.\<close>

theorem submission_appends_human_then_ai_witness:
  "session_messages (snd (script_run demo_world
       \<lparr>clear_clicked = False, chat_input = Some ''price?''\<rparr> chatting))
     = session_messages chatting @
         [\<lparr>role = ''human'', content = ''price?''\<rparr>,
          \<lparr>role = ''ai'', content = ''The 10GB package costs 1000 LKR.''\<rparr>]
   \<and> shown_messages (emitted chatting (snd (script_run demo_world
       \<lparr>clear_clicked = False, chat_input = Some ''price?''\<rparr> chatting)))
     = session_messages (snd (script_run demo_world
       \<lparr>clear_clicked = False, chat_input = Some ''price?''\<rparr> chatting))"
proof -
  let ?wd = "\<lparr>clear_clicked = False, chat_input = Some ''price?''\<rparr>"
  have hyp: "\<not> falsy (google_api_key demo_world) \<and> \<not> falsy (tavily_api_key demo_world)
        \<and> fst (get_vector_store demo_world chatting) = Some guide_store
        \<and> \<not> clear_clicked ?wd \<and> chat_input ?wd = Some ''price?'' \<and> ''price?'' \<noteq> []"
    by (simp add: demo_world_def falsy_def get_vector_store_def chatting_def)
  have ans: "fst (generate_answer demo_world ''price?'' guide_store h s5)
      = Inr ''The 10GB package costs 1000 LKR.''" for h s5
    by (simp add: generate_answer_def eval_defs split: option.splits)
  have msgs: "messages chatting = Some (session_messages chatting)"
    by (simp add: chatting_def session_messages_def)
  from submission_appends_human_then_ai[THEN conjunct2, rule_format, OF hyp]
  show ?thesis
    by (simp add: Let_def ans msgs)
qed

text \<open>
  C7 as stated fails: with an index whose search raises, a submission makes the history
  grow by the human message alone, and the ai bubble stays empty.
\<close>

theorem submission_without_retrieval_counterexample:
  "session_messages chatting_broken = [greeting]
   \<and> fst (script_run demo_world \<lparr>clear_clicked = False, chat_input = Some ''price?''\<rparr> chatting_broken)
       = Crashed (PyException ''embedding model unavailable'')
   \<and> session_messages (snd (script_run demo_world
         \<lparr>clear_clicked = False, chat_input = Some ''price?''\<rparr> chatting_broken))
       = [greeting, \<lparr>role = ''human'', content = ''price?''\<rparr>]"
  by (simp add: script_defs eval_defs chatting_broken_def broken_store_def)

section \<open>Claims about the index\<close>





text \<open>
  C9. With the index as the spec describes it: a search returns at most \<open>k\<close> results, in
  order of non-decreasing distance, and the store hands their chunks to the program.
  \<open>generate_answer\<close> searches exactly once, with the query and \<open>k = 3\<close>; its first model
  call carries the prompt built from the contents of all returned chunks, joined by blank
  lines in the order of the search, and every returned chunk's content occurs in that
  prompt.
\<close>

theorem top_three_chunks_ground_the_prompt:
  "length (search idx q k) \<le> k
   \<and> sorted (map snd (search idx q k))
   \<and> similarity_search (index_store idx) q k = Inr (map fst (search idx q k))
   \<and> retrievals (emitted s (snd (generate_answer w q (index_store idx) h s))) = [(q, 3)]
   \<and> (let docs = map fst (search idx q 3);
           prompt = pdf_prompt_text (join (nl @ nl) (map page_content docs)) q
       in hd (model_calls (emitted s (snd (generate_answer w q (index_store idx) h s))))
            = (fst (get_working_model_name w s), prompt)
          \<and> model_calls (emitted s (snd (generate_answer w q (index_store idx) h s))) \<noteq> []
          \<and> list_all (\<lambda>d. str_contains (page_content d) prompt) docs)"
proof -
  let ?docs = "map fst (search idx q 3)"
  let ?prompt = "pdf_prompt_text (join (nl @ nl) (map page_content ?docs)) q"
  let ?calls = "model_calls (emitted s (snd (generate_answer w q (index_store idx) h s)))"
  have r: "similarity_search (index_store idx) q k = Inr (map fst (search idx q k))" for k
    by (simp add: index_store_def)
  from generate_answer_first_calls[OF r, THEN conjunct2]
  obtain rest where calls: "?calls = (fst (get_working_model_name w s), ?prompt) # rest" ..
  have chunks: "list_all (\<lambda>d. str_contains (page_content d) ?prompt) ?docs"
    unfolding list_all_iff
  proof
    fix d
    assume "d \<in> set ?docs"
    then show "str_contains (page_content d) ?prompt"
      by (rule chunk_in_prompt)
  qed
  have first: "hd ?calls = (fst (get_working_model_name w s), ?prompt)"
    and some: "?calls \<noteq> []"
    by (simp_all only: calls list.sel list.distinct not_False_eq_True)
  show ?thesis
    unfolding Let_def
    by (intro conjI search_at_most_k search_ascending r generate_answer_first_calls[OF r, THEN conjunct1]
        first some chunks)
qed



text \<open>
  The theorem at work: of four chunks the three nearest are returned, nearest first, and
  fill the prompt in that order.
\<close>

theorem top_three_chunks_ground_the_prompt_witness:
  "map (\<lambda>(d, x). (page_content d, x)) (search line_index ''q'' 3)
     = [(''near'', 1), (''middle'', 4), (''far'', 9)]
   \<and> hd (model_calls (emitted process_start
        (snd (generate_answer demo_world ''q'' (index_store line_index) [] process_start))))
     = (''models/gemini-1.5-flash'',
        pdf_prompt_text (''near'' @ nl @ nl @ ''middle'' @ nl @ nl @ ''far'') ''q'')"
proof -
  have s: "search line_index ''q'' 3 =
     [(\<lparr>page_content = ''near'', source = ''data/guide.pdf'', page = 0\<rparr>, 1),
      (\<lparr>page_content = ''middle'', source = ''data/guide.pdf'', page = 1\<rparr>, 4),
      (\<lparr>page_content = ''far'', source = ''data/guide.pdf'', page = 2\<rparr>, 9)]"
    by (simp add: search_def line_index_def distance_def)
  from top_three_chunks_ground_the_prompt[of line_index "''q''" 3 process_start demo_world "[]"]
  show ?thesis
    by (simp add: s Let_def eval_defs)
qed


end
